theory Spec2Isabelle
  imports Main "HOL-Library.AList"
begin

section \<open>JavaScript values used by server.js\<close>

text \<open>
  A JavaScript string is held as the list of the bytes of its UTF-8 form. Equality, the
  empty string, a prefix of ASCII characters, the search for an ASCII character and the
  cut at its first occurrence read the same on that form as on the string itself. What
  depends on the characters beyond ASCII is not computed here: \<open>trim\<close>, \<open>toLowerCase\<close>,
  \<open>length\<close> and the numeric reading of a string are parameters, see \<open>builtins\<close> below.

  A field that holds a string and may be absent (\<open>undefined\<close> or \<open>null\<close>) is a
  \<open>string option\<close>. Such a field is read only through truthiness and the operator
  \<open>||\<close>, which treat \<open>undefined\<close> and \<open>null\<close> alike. \<open>truthy\<close> is JavaScript's truthiness
  on it: an absent value and the empty string are falsy. \<open>js_or\<close> is \<open>a || b\<close>, and
  \<open>js_or_else a d\<close> is \<open>a || d\<close> for a string \<open>d\<close>, which is always a string (so that
  \<open>String(a || d)\<close> is the same value).
\<close>

definition truthy :: "string option \<Rightarrow> bool" where
  "truthy v = (case v of None \<Rightarrow> False | Some s \<Rightarrow> s \<noteq> [])"

definition js_or :: "string option \<Rightarrow> string option \<Rightarrow> string option" where
  "js_or a b = (if truthy a then a else b)"

definition js_or_else :: "string option \<Rightarrow> string \<Rightarrow> string" where
  "js_or_else a d = (case a of None \<Rightarrow> d | Some s \<Rightarrow> if s = [] then d else s)"

definition startsWith :: "string \<Rightarrow> string \<Rightarrow> bool" where
  "startsWith s p = (take (length p) s = p)"

text \<open>
  Where the code tells \<open>null\<close> from \<open>undefined\<close>, or a number from a string, the field
  holds a value as \<open>JSON.parse\<close> returns it, and \<open>None\<close> is the absent key
  (\<open>undefined\<close>). A finite number is named by its decimal text, the one that
  \<open>Number.prototype.toString\<close> and \<open>JSON.stringify\<close> print for it: every double has
  exactly one, and \<open>0\<close> and \<open>-0\<close>, equal under \<open>===\<close>, share the text \<open>0\<close>. A JSON
  number too large for a double, such as \<open>1e400\<close>, parses to \<open>Infinity\<close>.
\<close>

datatype jsnumber = Finite string | PosInfinity | NegInfinity | NaN

datatype jsval =
    JNull
  | JBool bool
  | JNum jsnumber
  | JStr string
  | JArr "jsval list"
  | JObj "(string \<times> jsval) list"

text \<open>
  \<open>js_ToString\<close> is the conversion \<open>String(v)\<close> of a present value: an array is its
  elements joined by commas, with \<open>null\<close> elements left empty, and an object parsed
  from JSON is the text \<open>[object Object]\<close>. \<open>js_String\<close> extends it to an absent
  value, which \<open>String\<close> renders as \<open>undefined\<close>.
\<close>

fun join_comma :: "string list \<Rightarrow> string" where
  "join_comma [] = []"
| "join_comma [x] = x"
| "join_comma (x # y # ys) = x @ '','' @ join_comma (y # ys)"

fun js_ToString :: "jsval \<Rightarrow> string" where
  "js_ToString JNull = ''null''"
| "js_ToString (JBool b) = (if b then ''true'' else ''false'')"
| "js_ToString (JNum (Finite t)) = t"
| "js_ToString (JNum PosInfinity) = ''Infinity''"
| "js_ToString (JNum NegInfinity) = ''-Infinity''"
| "js_ToString (JNum NaN) = ''NaN''"
| "js_ToString (JStr s) = s"
| "js_ToString (JArr xs) = join_comma (map (\<lambda>v. if v = JNull then [] else js_ToString v) xs)"
| "js_ToString (JObj kvs) = ''[object Object]''"

definition js_String :: "jsval option \<Rightarrow> string" where
  "js_String v = (case v of None \<Rightarrow> ''undefined'' | Some x \<Rightarrow> js_ToString x)"

text \<open>
  The built-ins of the language that the code calls and that are not computed here:
  \<open>String.prototype.trim\<close>, \<open>String.prototype.toLowerCase\<close>, the \<open>length\<close> of a string
  (its number of UTF-16 code units), and, for a string \<open>s\<close>, whether \<open>Number(s)\<close> is
  finite. Every function of the model that reaches one of them takes the record as
  its first argument.
\<close>

record builtins =
  js_trim :: "string \<Rightarrow> string"
  js_toLowerCase :: "string \<Rightarrow> string"
  js_length :: "string \<Rightarrow> nat"
  js_stringIsFiniteNumber :: "string \<Rightarrow> bool"

text \<open>
  \<open>Number_isFinite bi v\<close> is \<open>Number.isFinite(Number(v))\<close> for a present value:
  \<open>Number(null)\<close> is 0, a boolean reads as 0 or 1, a string is read as a numeric
  literal, an array is read through its \<open>String\<close> form and an object reads as \<open>NaN\<close>.
  \<open>isFiniteNumber\<close> extends it to an absent value: \<open>Number(undefined)\<close> is \<open>NaN\<close>.
\<close>

fun Number_isFinite :: "builtins \<Rightarrow> jsval \<Rightarrow> bool" where
  "Number_isFinite bi JNull = True"
| "Number_isFinite bi (JBool b) = True"
| "Number_isFinite bi (JNum (Finite t)) = True"
| "Number_isFinite bi (JNum PosInfinity) = False"
| "Number_isFinite bi (JNum NegInfinity) = False"
| "Number_isFinite bi (JNum NaN) = False"
| "Number_isFinite bi (JStr s) = js_stringIsFiniteNumber bi s"
| "Number_isFinite bi (JArr xs) = js_stringIsFiniteNumber bi (js_ToString (JArr xs))"
| "Number_isFinite bi (JObj kvs) = False"

definition isFiniteNumber :: "builtins \<Rightarrow> jsval option \<Rightarrow> bool" where
  "isFiniteNumber bi v = (case v of None \<Rightarrow> False | Some x \<Rightarrow> Number_isFinite bi x)"

text \<open>
  Two facts about the built-ins that the properties of e-mail matching rest on, both
  true of \<open>trim\<close> and \<open>toLowerCase\<close>: normalising the empty string gives the empty
  string, and normalising a second time changes nothing.
\<close>

definition builtins_sane :: "builtins \<Rightarrow> bool" where
  "builtins_sane bi =
     (js_toLowerCase bi (js_trim bi []) = []
      \<and> (\<forall>s. js_toLowerCase bi (js_trim bi (js_toLowerCase bi (js_trim bi s)))
              = js_toLowerCase bi (js_trim bi s)))"

text \<open>
  \<open>new Set(xs)\<close> followed by \<open>Array.from\<close>: a JavaScript set keeps its members in
  insertion order, so it is modelled as a duplicate-free list. \<open>set_add\<close> is
  \<open>Set.prototype.add\<close>, \<open>set_delete\<close> is \<open>Set.prototype.delete\<close>.
\<close>

definition set_add :: "'a list \<Rightarrow> 'a \<Rightarrow> 'a list" where
  "set_add acc x = (if x \<in> set acc then acc else acc @ [x])"

definition set_delete :: "'a list \<Rightarrow> 'a \<Rightarrow> 'a list" where
  "set_delete acc x = filter (\<lambda>y. y \<noteq> x) acc"

definition new_Set :: "'a list \<Rightarrow> 'a list" where
  "new_Set xs = foldl set_add [] xs"

section \<open>Session\<close>

text \<open>
  The per-client bag kept by express-session: \<open>userId\<close>, \<open>guestLikes\<close>,
  \<open>oauthStates\<close> and \<open>oauthNext\<close>, each absent until first written.
\<close>

record session =
  userId :: "string option"
  guestLikes :: "string list option"
  oauthStates :: "(string \<rightharpoonup> string) option"
  oauthNext :: "(string \<rightharpoonup> string) option"

section \<open>Redirect targets\<close>

definition sanitizeNextUrl :: "string option \<Rightarrow> string" where
  "sanitizeNextUrl nextUrl =
     (let n = js_or_else nextUrl ''/''
      in if \<not> startsWith n ''/'' \<or> startsWith n ''//'' then ''/'' else n)"

text \<open>\<open>storedOauthNext s provider\<close> is the read \<open>req.session?.oauthNext?.[provider]\<close>.\<close>

definition storedOauthNext :: "session \<Rightarrow> string \<Rightarrow> string option" where
  "storedOauthNext s provider = (case oauthNext s of None \<Rightarrow> None | Some m \<Rightarrow> m provider)"

definition setOauthNext :: "session \<Rightarrow> string \<Rightarrow> string option \<Rightarrow> session" where
  "setOauthNext s provider nextUrl =
     (let m = (case oauthNext s of None \<Rightarrow> Map.empty | Some m \<Rightarrow> m)
      in s\<lparr>oauthNext := Some (m(provider \<mapsto> sanitizeNextUrl nextUrl))\<rparr>)"

definition consumeOauthNext :: "session \<Rightarrow> string \<Rightarrow> string \<times> session" where
  "consumeOauthNext s provider =
     (let n = storedOauthNext s provider;
          s' = (case oauthNext s of None \<Rightarrow> s
                | Some m \<Rightarrow> s\<lparr>oauthNext := Some (m(provider := None))\<rparr>)
      in (sanitizeNextUrl (js_or n (Some ''/'')), s'))"

section \<open>E-mail normalisation\<close>

definition normalizeEmail :: "builtins \<Rightarrow> string option \<Rightarrow> string" where
  "normalizeEmail bi email = js_toLowerCase bi (js_trim bi (js_or_else email []))"

section \<open>Data model\<close>

record oauth_link =
  link_providerId :: string
  link_email :: "string option"
  link_avatar :: "string option"
  linkedAt :: "string option"
  lastLoginAt :: "string option"

text \<open>
  \<open>oauthLinks\<close> is a JavaScript object keyed by provider name: an association list in
  insertion order, absent on accounts that never used OAuth.
\<close>

record user =
  user_id :: string
  provider :: string
  providerId :: "jsval option"
  email :: "string option"
  displayName :: "string option"
  avatar :: "string option"
  role :: string
  artistId :: "string option"
  passwordHash :: "string option"
  oauthLinks :: "(string \<times> oauth_link) list option"
  createdAt :: "string option"

text \<open>
  A track as \<open>JSON.parse\<close> returns it from tracks.json. \<open>published\<close> is the flag of
  the old demo format, read only by \<open>normalizeTrack\<close>. \<open>plays\<close> and \<open>likes\<close> hold any
  JSON value, since \<open>normalizeTrack\<close> tells a number from what is not one.
\<close>

record track =
  track_id :: string
  title :: "string option"
  track_artistId :: "string option"
  genre :: "string option"
  duration :: "string option"
  cover :: "string option"
  audio :: "string option"
  plays :: "jsval option"
  likes :: "jsval option"
  status :: "string option"
  published :: "bool option"
  track_createdAt :: "string option"
  submittedBy :: "string option"
  publishedAt :: "string option"
  rejectedAt :: "string option"

text \<open>\<open>trackIds\<close> is \<open>None\<close> when the stored value is not an array.\<close>

record playlist =
  playlist_id :: string
  playlist_title :: "string option"
  trackIds :: "string list option"

text \<open>
  The persisted collections, each as \<open>JSON.parse\<close> returns it from its file:
  \<open>USERS\<close> (users.json), \<open>USER_LIKES\<close> (user_likes.json, an
  entry is \<open>None\<close> when the key is missing or its value is not an array), \<open>TRACKS\<close>
  (tracks.json) and \<open>PLAYLISTS\<close> (playlists.json).
\<close>

record state =
  USERS :: "user list"
  USER_LIKES :: "string \<rightharpoonup> string list"
  TRACKS :: "track list"
  PLAYLISTS :: "playlist list"

datatype error = NotFound | Forbidden | BadState | NoCode | ProviderError string

fun status_code :: "error \<Rightarrow> nat" where
  "status_code NotFound = 404"
| "status_code Forbidden = 403"
| "status_code BadState = 400"
| "status_code NoCode = 400"
| "status_code (ProviderError _) = 500"

datatype reg_error = InvalidEmail | ShortPassword | PasswordMismatch | DuplicateEmail

text \<open>
  What a handler answers: a redirect to a URL, the redirect of \<open>requireRole\<close> to the
  login page, the redirect of \<open>POST /register\<close> back to the form with an error, an
  error status, or the JSON body \<open>{ok: true, liked, likes, guest}\<close> of the like API.
\<close>

datatype response =
    Redirect string
  | RedirectLogin
  | RedirectRegister reg_error
  | Error error
  | LikeJson bool "string list" bool

text \<open>
  \<open>replace_first P y xs\<close> is the array after the object returned by \<open>xs.find(P)\<close> has
  been mutated into \<open>y\<close>: the first element that satisfies \<open>P\<close> is replaced.
\<close>

fun replace_first :: "('a \<Rightarrow> bool) \<Rightarrow> 'a \<Rightarrow> 'a list \<Rightarrow> 'a list" where
  "replace_first P y [] = []"
| "replace_first P y (x # xs) = (if P x then y # xs else x # replace_first P y xs)"

section \<open>Users, sessions and likes\<close>

definition findUserById :: "state \<Rightarrow> string \<Rightarrow> user option" where
  "findUserById st i = find (\<lambda>u. user_id u = i) (USERS st)"

definition findUserByEmail :: "builtins \<Rightarrow> state \<Rightarrow> string option \<Rightarrow> user option" where
  "findUserByEmail bi st em =
     (let e = normalizeEmail bi em
      in find (\<lambda>u. provider u = ''local'' \<and> normalizeEmail bi (email u) = e) (USERS st))"

text \<open>\<open>same_email bi em u\<close>: the user's e-mail and \<open>em\<close> have the same normalised form.\<close>

definition same_email :: "builtins \<Rightarrow> string option \<Rightarrow> user \<Rightarrow> bool" where
  "same_email bi em u = (normalizeEmail bi (email u) = normalizeEmail bi em)"

definition findUserByEmailAnyProvider :: "builtins \<Rightarrow> state \<Rightarrow> string option \<Rightarrow> user option" where
  "findUserByEmailAnyProvider bi st em =
     (let e = normalizeEmail bi em
      in if e = [] then None else find (\<lambda>u. normalizeEmail bi (email u) = e) (USERS st))"

definition getCurrentUser :: "state \<Rightarrow> session \<Rightarrow> user option" where
  "getCurrentUser st s =
     (case userId s of None \<Rightarrow> None
      | Some i \<Rightarrow> if i = [] then None else findUserById st i)"

text \<open>\<open>getGuestLikes\<close> writes an empty array into the session when there is none.\<close>

definition getGuestLikes :: "session \<Rightarrow> string list \<times> session" where
  "getGuestLikes s =
     (case guestLikes s of None \<Rightarrow> ([], s\<lparr>guestLikes := Some []\<rparr>) | Some g \<Rightarrow> (g, s))"

definition getUserLikes :: "state \<Rightarrow> string \<Rightarrow> string list" where
  "getUserLikes st u = (case USER_LIKES st u of None \<Rightarrow> [] | Some l \<Rightarrow> l)"

definition setUserLikes :: "state \<Rightarrow> string \<Rightarrow> string list \<Rightarrow> state" where
  "setUserLikes st u l = st\<lparr>USER_LIKES := (USER_LIKES st)(u \<mapsto> l)\<rparr>"

definition getEffectiveLikes :: "state \<Rightarrow> session \<Rightarrow> string list \<times> session" where
  "getEffectiveLikes st s =
     (case getCurrentUser st s of Some u \<Rightarrow> (getUserLikes st (user_id u), s)
      | None \<Rightarrow> getGuestLikes s)"

definition mergeGuestLikesIntoUser :: "state \<times> session \<Rightarrow> string \<Rightarrow> state \<times> session" where
  "mergeGuestLikesIntoUser ss u =
     (let st = fst ss;
          (guest, s1) = getGuestLikes (snd ss)
      in if guest = [] then (st, s1)
         else let current = foldl set_add (new_Set (getUserLikes st u)) guest
              in (setUserLikes st u current, s1\<lparr>guestLikes := Some []\<rparr>))"

definition requireRole :: "string \<Rightarrow> state \<Rightarrow> session \<Rightarrow> response option" where
  "requireRole r st s =
     (case getCurrentUser st s of None \<Rightarrow> Some RedirectLogin
      | Some u \<Rightarrow> if role u \<noteq> r then Some (Error Forbidden) else None)"

text \<open>
  The middleware run before every route (\<open>app.use\<close>, "expose auth info to templates"):
  its only effect on the session is the one of \<open>getEffectiveLikes\<close>.
\<close>

definition exposeAuthInfo :: "state \<Rightarrow> session \<Rightarrow> session" where
  "exposeAuthInfo st s = snd (getEffectiveLikes st s)"

section \<open>Tracks: normalisation and visibility\<close>

definition normalizeTrack :: "builtins \<Rightarrow> track \<Rightarrow> track" where
  "normalizeTrack bi t =
     (let n1 = (if \<not> truthy (status t)
                then (if published t = Some False then t\<lparr>status := Some ''pending''\<rparr>
                      else t\<lparr>status := Some ''published''\<rparr>)
                else t);
          n2 = (if \<not> truthy (cover n1) then n1\<lparr>cover := Some ''/assets/covers/default.png''\<rparr>
                else n1);
          n3 = (if \<not> truthy (audio n2) then n2\<lparr>audio := Some ''/audio/sample.wav''\<rparr> else n2);
          n4 = (if \<not> truthy (duration n3) then n3\<lparr>duration := Some ''0:00''\<rparr> else n3);
          n5 = (if \<not> isFiniteNumber bi (plays n4)
                then n4\<lparr>plays := Some (JNum (Finite ''0''))\<rparr> else n4);
          n6 = (if \<not> isFiniteNumber bi (likes n5)
                then n5\<lparr>likes := Some (JNum (Finite ''0''))\<rparr> else n5)
      in n6)"

definition isTrackVisibleToUser :: "track \<Rightarrow> user option \<Rightarrow> bool" where
  "isTrackVisibleToUser t usr =
     (let st = js_or_else (status t) ''published''
      in if st = ''published'' then True
         else (case usr of None \<Rightarrow> False
               | Some u \<Rightarrow>
                   if role u = ''admin'' then True
                   else if role u = ''artist'' \<and> truthy (artistId u)
                           \<and> track_artistId t = artistId u then True
                   else False))"

section \<open>Admin moderation routes\<close>

text \<open>
  Each route takes the request parameter, the clock reading where it stamps a time,
  the persisted state and the session, and returns the response with the new state.
  The routes run behind \<open>requireRole('admin')\<close>.
\<close>

definition admin_approve :: "builtins \<Rightarrow> string \<Rightarrow> string \<Rightarrow> state \<Rightarrow> session \<Rightarrow> response \<times> state" where
  "admin_approve bi tid now st s =
     (case requireRole ''admin'' st s of Some r \<Rightarrow> (r, st)
      | None \<Rightarrow>
          let tracks = map (normalizeTrack bi) (TRACKS st)
          in (case find (\<lambda>x. track_id x = tid) tracks of None \<Rightarrow> (Error NotFound, st)
              | Some t \<Rightarrow>
                  (Redirect ''/admin'',
                   st\<lparr>TRACKS := replace_first (\<lambda>x. track_id x = tid)
                        (t\<lparr>status := Some ''published'', publishedAt := Some now\<rparr>) tracks\<rparr>)))"

definition admin_reject :: "builtins \<Rightarrow> string \<Rightarrow> string \<Rightarrow> state \<Rightarrow> session \<Rightarrow> response \<times> state" where
  "admin_reject bi tid now st s =
     (case requireRole ''admin'' st s of Some r \<Rightarrow> (r, st)
      | None \<Rightarrow>
          let tracks = map (normalizeTrack bi) (TRACKS st)
          in (case find (\<lambda>x. track_id x = tid) tracks of None \<Rightarrow> (Error NotFound, st)
              | Some t \<Rightarrow>
                  (Redirect ''/admin'',
                   st\<lparr>TRACKS := replace_first (\<lambda>x. track_id x = tid)
                        (t\<lparr>status := Some ''rejected'', rejectedAt := Some now\<rparr>) tracks\<rparr>)))"

definition admin_delete :: "builtins \<Rightarrow> string \<Rightarrow> state \<Rightarrow> session \<Rightarrow> response \<times> state" where
  "admin_delete bi tid st s =
     (case requireRole ''admin'' st s of Some r \<Rightarrow> (r, st)
      | None \<Rightarrow>
          let tracks = map (normalizeTrack bi) (TRACKS st);
              next = filter (\<lambda>x. track_id x \<noteq> tid) tracks;
              updated = map (\<lambda>p. p\<lparr>trackIds :=
                               (case trackIds p of Some ids \<Rightarrow> Some (filter (\<lambda>i. i \<noteq> tid) ids)
                                | None \<Rightarrow> Some [])\<rparr>) (PLAYLISTS st)
          in (Redirect ''/admin'', st\<lparr>TRACKS := next, PLAYLISTS := updated\<rparr>))"

section \<open>The like API\<close>

definition api_like :: "builtins \<Rightarrow> string \<Rightarrow> state \<Rightarrow> session \<Rightarrow> response \<times> state \<times> session" where
  "api_like bi trackId st s =
     (let usr = getCurrentUser st s;
          allTracks = map (normalizeTrack bi) (TRACKS st)
      in case find (\<lambda>t. track_id t = trackId) allTracks of None \<Rightarrow> (Error NotFound, st, s)
         | Some t \<Rightarrow>
             if \<not> isTrackVisibleToUser t usr then (Error Forbidden, st, s)
             else (case usr of
                     Some u \<Rightarrow>
                       let current = new_Set (getUserLikes st (user_id u));
                           (current', liked) =
                              (if trackId \<in> set current then (set_delete current trackId, False)
                               else (set_add current trackId, True));
                           st' = setUserLikes st (user_id u) current'
                       in (LikeJson liked (getUserLikes st' (user_id u)) False, st', s)
                   | None \<Rightarrow>
                       let (g, s1) = getGuestLikes s;
                           guest = new_Set g;
                           (guest', liked) =
                              (if trackId \<in> set guest then (set_delete guest trackId, False)
                               else (set_add guest trackId, True));
                           s2 = s1\<lparr>guestLikes := Some guest'\<rparr>
                       in (LikeJson liked (case guestLikes s2 of Some l \<Rightarrow> l | None \<Rightarrow> []) True, st, s2)))"

text \<open>The whole request \<open>POST /api/like/:trackId\<close>: the middleware, then the route.\<close>

definition post_api_like :: "builtins \<Rightarrow> string \<Rightarrow> state \<Rightarrow> session \<Rightarrow> response \<times> state \<times> session" where
  "post_api_like bi trackId st s = api_like bi trackId st (exposeAuthInfo st s)"

section \<open>OAuth identity linking\<close>

text \<open>\<open>oauthLink u prov\<close> is the read \<open>u.oauthLinks && u.oauthLinks[provider]\<close>.\<close>

definition oauthLink :: "user \<Rightarrow> string \<Rightarrow> oauth_link option" where
  "oauthLink u prov = (case oauthLinks u of None \<Rightarrow> None | Some ls \<Rightarrow> map_of ls prov)"

text \<open>
  \<open>oauth_match\<close> is the predicate of the first \<open>USERS.find\<close> in \<open>upsertOauthUser\<close>: the
  user's primary provider and provider id match, or its link for this provider does.
\<close>

definition oauth_match :: "string \<Rightarrow> string \<Rightarrow> user \<Rightarrow> bool" where
  "oauth_match prov pid u =
     ((provider u = prov \<and> js_String (providerId u) = pid)
      \<or> (case oauthLink u prov of None \<Rightarrow> False | Some l \<Rightarrow> link_providerId l = pid))"

text \<open>Step 1 of \<open>upsertOauthUser\<close>: what the directly matched user is mutated into.\<close>

definition refresh_existing ::
  "string \<Rightarrow> string \<Rightarrow> string option \<Rightarrow> string option \<Rightarrow> string option \<Rightarrow> string \<Rightarrow> user \<Rightarrow> user" where
  "refresh_existing prov pid em dn av now existing =
     (let links = (case oauthLinks existing of None \<Rightarrow> [] | Some ls \<Rightarrow> ls);
          l0 = (case map_of links prov of
                  None \<Rightarrow> \<lparr>link_providerId = pid, link_email = None, link_avatar = None,
                            linkedAt = None, lastLoginAt = None\<rparr>
                | Some l \<Rightarrow> l);
          l1 = l0\<lparr>link_providerId := pid\<rparr>;
          l2 = (if truthy em then l1\<lparr>link_email := em\<rparr> else l1);
          l3 = (if truthy av then l2\<lparr>link_avatar := av\<rparr> else l2);
          l4 = l3\<lparr>lastLoginAt := Some now\<rparr>;
          l5 = l4\<lparr>linkedAt := js_or (linkedAt l4) (Some now)\<rparr>
      in existing\<lparr>email := js_or em (email existing),
                   displayName := js_or dn (displayName existing),
                   avatar := js_or av (avatar existing),
                   oauthLinks := Some (AList.update prov l5 links)\<rparr>)"

text \<open>Step 2: what the user found by e-mail is mutated into.\<close>

definition link_byEmail ::
  "string \<Rightarrow> string \<Rightarrow> string option \<Rightarrow> string option \<Rightarrow> string option \<Rightarrow> string \<Rightarrow> user \<Rightarrow> user" where
  "link_byEmail prov pid em dn av now byEmail =
     (let links = (case oauthLinks byEmail of None \<Rightarrow> [] | Some ls \<Rightarrow> ls);
          l = \<lparr>link_providerId = pid,
               link_email = js_or (js_or em (email byEmail)) None,
               link_avatar = js_or (js_or av (avatar byEmail)) None,
               linkedAt = Some now, lastLoginAt = Some now\<rparr>
      in byEmail\<lparr>oauthLinks := Some (AList.update prov l links),
                  email := js_or (js_or (email byEmail) em) None,
                  displayName := js_or (js_or (displayName byEmail) dn) (displayName byEmail),
                  avatar := js_or (js_or (avatar byEmail) av) (avatar byEmail)\<rparr>)"

text \<open>Step 3: the user created when nothing matched.\<close>

definition new_oauth_user ::
  "string \<Rightarrow> string \<Rightarrow> string option \<Rightarrow> string option \<Rightarrow> string option \<Rightarrow> string \<Rightarrow> string \<Rightarrow> user" where
  "new_oauth_user prov pid em dn av now newId =
     \<lparr>user_id = newId, provider = prov, providerId = Some (JStr pid),
      email = js_or em None, displayName = js_or dn (Some ''User''), avatar = js_or av None,
      role = ''user'', artistId = None, passwordHash = None,
      oauthLinks = Some [(prov, \<lparr>link_providerId = pid, link_email = js_or em None,
                                link_avatar = js_or av None,
                                linkedAt = Some now, lastLoginAt = Some now\<rparr>)],
      createdAt = Some now\<rparr>"

text \<open>
  \<open>upsertOauthUser\<close> takes, besides the destructured argument, the clock reading \<open>now\<close>
  (\<open>new Date().toISOString()\<close>) and the identifier \<open>newId\<close> drawn from
  \<open>crypto.randomBytes\<close>; it returns the user and the new state.
\<close>

definition upsertOauthUser ::
  "builtins \<Rightarrow> string \<Rightarrow> jsval option \<Rightarrow> string option \<Rightarrow> string option \<Rightarrow> string option
     \<Rightarrow> string \<Rightarrow> string \<Rightarrow> state \<Rightarrow> user \<times> state" where
  "upsertOauthUser bi prov provId em dn av now newId st =
     (let pid = js_String provId
      in case find (oauth_match prov pid) (USERS st) of
           Some existing \<Rightarrow>
             let existing' = refresh_existing prov pid em dn av now existing
             in (existing', st\<lparr>USERS := replace_first (oauth_match prov pid) existing' (USERS st)\<rparr>)
         | None \<Rightarrow>
             let normEmail = normalizeEmail bi em
             in (case (if normEmail \<noteq> [] then findUserByEmailAnyProvider bi st (Some normEmail)
                       else None) of
                   Some byEmail \<Rightarrow>
                     let byEmail' = link_byEmail prov pid em dn av now byEmail
                     in (byEmail',
                         st\<lparr>USERS := replace_first (same_email bi (Some normEmail))
                               byEmail' (USERS st),
                            USER_LIKES := (USER_LIKES st)
                               (user_id byEmail \<mapsto> getUserLikes st (user_id byEmail))\<rparr>)
                 | None \<Rightarrow>
                     let usr = new_oauth_user prov pid em dn av now newId
                     in (usr, st\<lparr>USERS := USERS st @ [usr],
                                 USER_LIKES := (USER_LIKES st)
                                    (newId \<mapsto> getUserLikes st newId)\<rparr>)))"

section \<open>OAuth transient state and callback\<close>

definition setOauthState :: "session \<Rightarrow> string \<Rightarrow> string \<Rightarrow> session" where
  "setOauthState s prov tok =
     (let m = (case oauthStates s of None \<Rightarrow> Map.empty | Some m \<Rightarrow> m)
      in s\<lparr>oauthStates := Some (m(prov \<mapsto> tok))\<rparr>)"

text \<open>\<open>storedOauthState s prov\<close> is the read \<open>req.session?.oauthStates?.[provider]\<close>.\<close>

definition storedOauthState :: "session \<Rightarrow> string \<Rightarrow> string option" where
  "storedOauthState s prov = (case oauthStates s of None \<Rightarrow> None | Some m \<Rightarrow> m prov)"

definition checkOauthState :: "session \<Rightarrow> string \<Rightarrow> string option \<Rightarrow> bool" where
  "checkOauthState s prov tok =
     (let expected = storedOauthState s prov
      in truthy expected \<and> truthy tok \<and> expected = tok)"

text \<open>
  The identity a provider returns, already in the common shape the three callbacks
  pass to \<open>upsertOauthUser\<close>.
\<close>

record oauth_profile =
  p_providerId :: "jsval option"
  p_email :: "string option"
  p_displayName :: "string option"
  p_avatar :: "string option"

text \<open>
  The three callbacks (\<open>/auth/google/callback\<close>, \<open>/auth/yandex/callback\<close>,
  \<open>/auth/vk/callback\<close>) differ in the provider name and in the requests they send.
  The outcome of the token exchange and of the profile request is the argument
  \<open>exchange\<close>: \<open>Inl body\<close> when the provider answered with an error (or the handler
  threw), \<open>Inr profile\<close> otherwise.
\<close>

definition oauth_callback ::
  "builtins \<Rightarrow> string \<Rightarrow> string option \<Rightarrow> string option \<Rightarrow> string + oauth_profile \<Rightarrow> string \<Rightarrow> string
     \<Rightarrow> state \<Rightarrow> session \<Rightarrow> response \<times> state \<times> session" where
  "oauth_callback bi prov q_state q_code exchange now newId st s =
     (if \<not> checkOauthState s prov q_state then (Error BadState, st, s)
      else if \<not> truthy q_code then (Error NoCode, st, s)
      else (case exchange of
              Inl body \<Rightarrow> (Error (ProviderError body), st, s)
            | Inr me \<Rightarrow>
                let (usr, st1) = upsertOauthUser bi prov (p_providerId me) (p_email me)
                                   (p_displayName me) (p_avatar me) now newId st;
                    s1 = s\<lparr>userId := Some (user_id usr)\<rparr>;
                    (st2, s2) = mergeGuestLikesIntoUser (st1, s1) (user_id usr);
                    (target, s3) = consumeOauthNext s2 prov
                in (Redirect target, st2, s3)))"

text \<open>The whole request: the middleware, then the callback route.\<close>

definition get_oauth_callback ::
  "builtins \<Rightarrow> string \<Rightarrow> string option \<Rightarrow> string option \<Rightarrow> string + oauth_profile \<Rightarrow> string \<Rightarrow> string
     \<Rightarrow> state \<Rightarrow> session \<Rightarrow> response \<times> state \<times> session" where
  "get_oauth_callback bi prov q_state q_code exchange now newId st s =
     oauth_callback bi prov q_state q_code exchange now newId st (exposeAuthInfo st s)"

section \<open>Local registration\<close>

record register_body =
  b_next :: "string option"
  b_email :: "string option"
  b_displayName :: "string option"
  b_password :: "string option"
  b_password2 :: "string option"

text \<open>
  \<open>POST /register\<close>. \<open>hashPassword\<close> (a salted scrypt hash with a random salt) is the
  parameter \<open>hash\<close>; \<open>now\<close> and \<open>newId\<close> are as in \<open>upsertOauthUser\<close>.
\<close>

definition post_register ::
  "builtins \<Rightarrow> (string \<Rightarrow> string) \<Rightarrow> register_body \<Rightarrow> string \<Rightarrow> string \<Rightarrow> state \<Rightarrow> session
     \<Rightarrow> response \<times> state \<times> session" where
  "post_register bi hash body now newId st s0 =
     (let s = exposeAuthInfo st s0;
          nextUrl = sanitizeNextUrl (js_or (b_next body) (Some ''/''));
          em = normalizeEmail bi (Some (js_or_else (b_email body) []));
          dn = js_trim bi (js_or_else (b_displayName body) []);
          password = js_or_else (b_password body) [];
          password2 = js_or_else (b_password2 body) []
      in if em = [] \<or> CHR ''@'' \<notin> set em \<or> js_length bi em < 5
           then (RedirectRegister InvalidEmail, st, s)
         else if password = [] \<or> js_length bi password < 6
           then (RedirectRegister ShortPassword, st, s)
         else if password \<noteq> password2
           then (RedirectRegister PasswordMismatch, st, s)
         else if findUserByEmailAnyProvider bi st (Some em) \<noteq> None
           then (RedirectRegister DuplicateEmail, st, s)
         else
           let usr = \<lparr>user_id = newId, provider = ''local'', providerId = None,
                      email = Some em,
                      displayName = js_or (js_or (Some dn)
                                      (Some (takeWhile (\<lambda>c. c \<noteq> CHR ''@'') em))) (Some ''User''),
                      avatar = None, role = ''user'', artistId = None,
                      passwordHash = Some (hash password), oauthLinks = None,
                      createdAt = Some now\<rparr>;
               st1 = st\<lparr>USERS := USERS st @ [usr],
                        USER_LIKES := (USER_LIKES st)(newId \<mapsto> getUserLikes st newId)\<rparr>;
               s1 = s\<lparr>userId := Some newId\<rparr>;
               (st2, s2) = mergeGuestLikesIntoUser (st1, s1) newId
           in (Redirect nextUrl, st2, s2))"

section \<open>The uniqueness invariant on users\<close>

text \<open>
  \<open>identities u\<close> are the (provider, providerId) pairs under which \<open>u\<close> is reachable:
  its primary pair when it has a provider id, and one pair per entry of \<open>oauthLinks\<close>.
\<close>

definition identities :: "user \<Rightarrow> (string \<times> string) list" where
  "identities u =
     (case providerId u of None \<Rightarrow> [] | Some q \<Rightarrow> [(provider u, js_ToString q)])
     @ (case oauthLinks u of None \<Rightarrow> []
        | Some ls \<Rightarrow> map (\<lambda>(p, l). (p, link_providerId l)) (AList.clearjunk ls))"

fun unique_identities :: "user list \<Rightarrow> bool" where
  "unique_identities [] = True"
| "unique_identities (u # us) =
     ((\<forall>v \<in> set us. set (identities u) \<inter> set (identities v) = {}) \<and> unique_identities us)"

definition unique_local_emails :: "builtins \<Rightarrow> user list \<Rightarrow> bool" where
  "unique_local_emails bi us =
     distinct (map (\<lambda>u. normalizeEmail bi (email u)) (filter (\<lambda>u. provider u = ''local'') us))"

definition users_invariant :: "builtins \<Rightarrow> user list \<Rightarrow> bool" where
  "users_invariant bi us = (unique_identities us \<and> unique_local_emails bi us)"

section \<open>Predicates that follow the wording of the specification\<close>




text \<open>The like-set after a toggle, as the specification words it.\<close>

definition toggled :: "string \<Rightarrow> string set \<Rightarrow> string set" where
  "toggled tid S = (if tid \<in> S then S - {tid} else insert tid S)"

section \<open>Example data\<close>

text \<open>
  The examples need the built-ins at concrete strings. \<open>ascii_builtins\<close> are the
  built-ins restricted to what the examples hold: on a string of ASCII characters
  \<open>ascii_trim\<close>, \<open>ascii_toLowerCase\<close> and \<open>length\<close> return what \<open>trim\<close>, \<open>toLowerCase\<close>
  and \<open>length\<close> return; \<open>ascii_stringIsFiniteNumber\<close> is what \<open>Number\<close> answers on the
  empty string, on up to fifteen decimal digits, and on a string that holds a
  character found in no numeric literal. The examples hold no other strings.
\<close>

definition is_ws :: "char \<Rightarrow> bool" where
  "is_ws c = (c \<in> set [CHR '' '', CHR 0x09, CHR 0x0A, CHR 0x0B, CHR 0x0C, CHR 0x0D])"

definition ascii_trim :: "string \<Rightarrow> string" where
  "ascii_trim s = rev (dropWhile is_ws (rev (dropWhile is_ws s)))"

definition ascii_toLower :: "char \<Rightarrow> char" where
  "ascii_toLower c =
     (case map_of (zip ''ABCDEFGHIJKLMNOPQRSTUVWXYZ'' ''abcdefghijklmnopqrstuvwxyz'') c of
        None \<Rightarrow> c | Some l \<Rightarrow> l)"

definition ascii_toLowerCase :: "string \<Rightarrow> string" where
  "ascii_toLowerCase s = map ascii_toLower s"

definition ascii_stringIsFiniteNumber :: "string \<Rightarrow> bool" where
  "ascii_stringIsFiniteNumber s = (length s \<le> 15 \<and> set s \<subseteq> set ''0123456789'')"

definition ascii_builtins :: builtins where
  "ascii_builtins = \<lparr>js_trim = ascii_trim, js_toLowerCase = ascii_toLowerCase,
      js_length = length, js_stringIsFiniteNumber = ascii_stringIsFiniteNumber\<rparr>"

definition demo_pending :: track where
  "demo_pending = \<lparr>track_id = ''t1'', title = Some ''Song'', track_artistId = Some ''a1'',
      genre = Some ''Pop'', duration = Some ''3:05'', cover = None, audio = None,
      plays = Some (JNum (Finite ''10'')), likes = None,
      status = Some ''pending'', published = None,
      track_createdAt = None, submittedBy = Some ''u_artist'', publishedAt = None,
      rejectedAt = None\<rparr>"

definition demo_admin :: user where
  "demo_admin = \<lparr>user_id = ''u_admin'', provider = ''local'', providerId = None,
      email = Some ''admin@soundhub.local'', displayName = Some ''Admin'', avatar = None,
      role = ''admin'', artistId = None, passwordHash = Some ''s:h'', oauthLinks = None,
      createdAt = None\<rparr>"

definition demo_artist :: user where
  "demo_artist = \<lparr>user_id = ''u_artist'', provider = ''local'', providerId = None,
      email = Some ''artist@soundhub.local'', displayName = Some ''Artist'', avatar = None,
      role = ''artist'', artistId = Some ''a1'', passwordHash = Some ''s:h'', oauthLinks = None,
      createdAt = None\<rparr>"

definition demo_user :: user where
  "demo_user = \<lparr>user_id = ''u_user'', provider = ''local'', providerId = None,
      email = Some ''user@soundhub.local'', displayName = Some ''User'', avatar = None,
      role = ''user'', artistId = None, passwordHash = Some ''s:h'', oauthLinks = None,
      createdAt = None\<rparr>"

definition demo_rejected :: track where
  "demo_rejected = \<lparr>track_id = ''t2'', title = Some ''Noise'', track_artistId = Some ''a2'',
      genre = Some ''Rock'', duration = Some ''2:10'', cover = Some ''/uploads/covers/c2.png'',
      audio = Some ''/uploads/audio/a2.mp3'', plays = Some (JNum (Finite ''0'')),
      likes = Some (JNum (Finite ''0'')),
      status = Some ''rejected'', published = None, track_createdAt = None,
      submittedBy = None, publishedAt = None, rejectedAt = Some ''2024-01-01T00:00:00.000Z''\<rparr>"

text \<open>A track in the old demo format: no status, the flag \<open>published\<close> set to false.\<close>

definition demo_legacy :: track where
  "demo_legacy = \<lparr>track_id = ''t3'', title = Some ''Old'', track_artistId = Some ''a1'',
      genre = None, duration = None, cover = None, audio = None, plays = None, likes = None,
      status = None, published = Some False, track_createdAt = None, submittedBy = None,
      publishedAt = None, rejectedAt = None\<rparr>"

definition demo_published :: track where
  "demo_published = \<lparr>track_id = ''t4'', title = Some ''Hit'', track_artistId = Some ''a2'',
      genre = Some ''Pop'', duration = Some ''3:30'', cover = Some ''/assets/covers/hit.png'',
      audio = Some ''/audio/hit.mp3'', plays = Some (JNum (Finite ''120'')),
      likes = Some (JNum (Finite ''7'')),
      status = Some ''published'', published = None, track_createdAt = None,
      submittedBy = None, publishedAt = Some ''2024-02-02T00:00:00.000Z'', rejectedAt = None\<rparr>"

definition demo_state :: state where
  "demo_state = \<lparr>USERS = [demo_admin, demo_artist, demo_user],
      USER_LIKES = [''u_user'' \<mapsto> [''t4'']],
      TRACKS = [demo_pending, demo_rejected, demo_legacy, demo_published],
      PLAYLISTS = [\<lparr>playlist_id = ''p1'', playlist_title = Some ''Mix'',
                     trackIds = Some [''t1'', ''t4'', ''t2'', ''t4'']\<rparr>,
                   \<lparr>playlist_id = ''p2'', playlist_title = Some ''Empty'', trackIds = None\<rparr>]\<rparr>"



definition session_of :: "string option \<Rightarrow> session" where
  "session_of uid = \<lparr>userId = uid, guestLikes = None, oauthStates = None, oauthNext = None\<rparr>"

definition empty_state :: state where
  "empty_state = \<lparr>USERS = [], USER_LIKES = Map.empty, TRACKS = [], PLAYLISTS = []\<rparr>"

definition merge_state :: state where
  "merge_state = demo_state\<lparr>USER_LIKES := [''u_user'' \<mapsto> [''B'', ''C'']]\<rparr>"

definition merge_session :: session where
  "merge_session = (session_of None)\<lparr>guestLikes := Some [''A'', ''B'']\<rparr>"

text \<open>
  A guest session in which \<open>/auth/google\<close> has recorded its state token and the target
  \<open>/library\<close>, and the two callbacks that then present that token.
\<close>

definition cb_session :: session where
  "cb_session = setOauthNext
      (setOauthState ((session_of None)\<lparr>guestLikes := Some [''t4'']\<rparr>) ''google'' ''tok123'')
      ''google'' (Some ''/library'')"

definition cb_profile :: oauth_profile where
  "cb_profile = \<lparr>p_providerId = Some (JStr ''g-1''), p_email = Some ''ann@x.com'',
      p_displayName = Some ''Ann'', p_avatar = None\<rparr>"

definition cb_first :: "response \<times> state \<times> session" where
  "cb_first = get_oauth_callback ascii_builtins ''google'' (Some ''tok123'') (Some ''code1'') (Inr cb_profile)
                ''2024-03-03'' ''u_new1'' demo_state cb_session"

definition cb_second :: "response \<times> state \<times> session" where
  "cb_second = get_oauth_callback ascii_builtins ''google'' (Some ''tok123'') (Some ''code2'') (Inr cb_profile)
                ''2024-03-04'' ''u_new2'' (fst (snd cb_first)) (snd (snd cb_first))"

definition reg_body :: "string \<Rightarrow> string \<Rightarrow> register_body" where
  "reg_body em dn = \<lparr>b_next = None, b_email = Some em, b_displayName = Some dn,
      b_password = Some ''secret1'', b_password2 = Some ''secret1''\<rparr>"

text \<open>
  A history that duplicates a local e-mail: Ann registers, links her Google account by
  e-mail, Bob registers, then Ann's Google account comes back with Bob's address.
\<close>

definition dup_state1 :: state where
  "dup_state1 = fst (snd (post_register ascii_builtins (\<lambda>p. ''salt:hash'') (reg_body ''ann@x.com'' ''Ann'')
      ''2024-01-01'' ''u_ann'' empty_state (session_of None)))"

definition dup_state2 :: state where
  "dup_state2 = snd (upsertOauthUser ascii_builtins ''google'' (Some (JStr ''g-1'')) (Some ''ann@x.com'') (Some ''Ann'')
      None ''2024-01-02'' ''u_r2'' dup_state1)"

definition dup_state3 :: state where
  "dup_state3 = fst (snd (post_register ascii_builtins (\<lambda>p. ''salt:hash'') (reg_body ''bob@x.com'' ''Bob'')
      ''2024-01-03'' ''u_bob'' dup_state2 (session_of None)))"

definition dup_state4 :: state where
  "dup_state4 = snd (upsertOauthUser ascii_builtins ''google'' (Some (JStr ''g-1'')) (Some ''bob@x.com'') (Some ''Ann'')
      None ''2024-01-04'' ''u_r4'' dup_state3)"

definition cx_state :: state where
  "cx_state = snd (upsertOauthUser ascii_builtins ''vk'' (Some (JNum (Finite ''42''))) None (Some ''Vik'') None
                ''2024-01-02'' ''u_vk''
                (snd (upsertOauthUser ascii_builtins ''google'' (Some (JStr ''g-7'')) (Some ''ann@x.com'') (Some ''Ann'')
                       (Some ''https://img.example/a.png'') ''2024-01-01'' ''u_g'' empty_state)))"

text \<open>
  A users.json in which two records are reachable under the pair (google, g-1): the
  first has it as its primary pair, the second as a link.
\<close>

definition twin_first :: user where
  "twin_first = \<lparr>user_id = ''u_t1'', provider = ''google'', providerId = Some (JStr ''g-1''),
      email = Some ''t1@x.com'', displayName = Some ''T One'', avatar = None,
      role = ''user'', artistId = None, passwordHash = None, oauthLinks = None,
      createdAt = None\<rparr>"

definition twin_second :: user where
  "twin_second = \<lparr>user_id = ''u_t2'', provider = ''local'', providerId = None,
      email = Some ''t2@x.com'', displayName = Some ''T Two'', avatar = None,
      role = ''user'', artistId = None, passwordHash = Some ''s:h'',
      oauthLinks = Some [(''google'', \<lparr>link_providerId = ''g-1'', link_email = Some ''t2@x.com'',
                                       link_avatar = None, linkedAt = Some ''2024-01-05'',
                                       lastLoginAt = Some ''2024-01-05''\<rparr>)],
      createdAt = None\<rparr>"

definition twin_state :: state where
  "twin_state = \<lparr>USERS = [twin_first, twin_second], USER_LIKES = Map.empty, TRACKS = [],
      PLAYLISTS = []\<rparr>"

section \<open>Properties of the redirect target\<close>

lemma sanitizeNextUrl_shape:
  "startsWith (sanitizeNextUrl x) ''/'' \<and> \<not> startsWith (sanitizeNextUrl x) ''//''"
  by (simp add: sanitizeNextUrl_def Let_def startsWith_def)

lemma startsWith_slash_not_scheme:
  "startsWith n ''/'' \<Longrightarrow>
     \<not> startsWith n ''http://'' \<and> \<not> startsWith n ''https://'' \<and> \<not> startsWith n ''javascript:''"
  by (cases n) (auto simp: startsWith_def)

text \<open>
  Claim C8. For every input, the sanitized redirect target (the result of
  \<open>sanitizeNextUrl\<close>, and so the value returned by \<open>consumeOauthNext\<close>) starts with
  \<open>/\<close> and does not start with \<open>//\<close>; hence it is neither a scheme-qualified URL
  (\<open>http://\<close>, \<open>https://\<close>, \<open>javascript:\<close>) nor a protocol-relative one. Every input
  that is not of that shape, an absent input, and an absent recorded target all
  yield \<open>/\<close>.
\<close>

theorem sanitized_next_is_same_origin_path:
  "startsWith (sanitizeNextUrl x) ''/''
   \<and> \<not> startsWith (sanitizeNextUrl x) ''//''
   \<and> \<not> startsWith (sanitizeNextUrl x) ''http://''
   \<and> \<not> startsWith (sanitizeNextUrl x) ''https://''
   \<and> \<not> startsWith (sanitizeNextUrl x) ''javascript:''
   \<and> (\<not> (startsWith n ''/'' \<and> \<not> startsWith n ''//'') \<longrightarrow> sanitizeNextUrl (Some n) = ''/'')
   \<and> sanitizeNextUrl None = ''/''
   \<and> startsWith (fst (consumeOauthNext s p)) ''/''
   \<and> \<not> startsWith (fst (consumeOauthNext s p)) ''//''
   \<and> \<not> startsWith (fst (consumeOauthNext s p)) ''http://''
   \<and> \<not> startsWith (fst (consumeOauthNext s p)) ''https://''
   \<and> \<not> startsWith (fst (consumeOauthNext s p)) ''javascript:''
   \<and> (storedOauthNext s p = None \<longrightarrow> fst (consumeOauthNext s p) = ''/'')"
proof -
  have a: "startsWith (sanitizeNextUrl x) ''/'' \<and> \<not> startsWith (sanitizeNextUrl x) ''//''"
    by (rule sanitizeNextUrl_shape)
  have b: "\<not> (startsWith n ''/'' \<and> \<not> startsWith n ''//'') \<longrightarrow> sanitizeNextUrl (Some n) = ''/''"
    by (auto simp: sanitizeNextUrl_def Let_def js_or_def js_or_else_def truthy_def startsWith_def)
  have c: "sanitizeNextUrl None = ''/''"
    by (simp add: sanitizeNextUrl_def Let_def js_or_def js_or_else_def truthy_def startsWith_def)
  obtain y where y: "fst (consumeOauthNext s p) = sanitizeNextUrl y"
    by (simp add: consumeOauthNext_def Let_def)
  have d: "startsWith (fst (consumeOauthNext s p)) ''/''
           \<and> \<not> startsWith (fst (consumeOauthNext s p)) ''//''"
    unfolding y by (rule sanitizeNextUrl_shape)
  have e: "storedOauthNext s p = None \<longrightarrow> fst (consumeOauthNext s p) = ''/''"
    by (simp add: consumeOauthNext_def Let_def sanitizeNextUrl_def js_or_def js_or_else_def
        truthy_def startsWith_def)
  from a b c d e startsWith_slash_not_scheme [of "sanitizeNextUrl x"]
    startsWith_slash_not_scheme [of "fst (consumeOauthNext s p)"]
  show ?thesis by blast
qed

theorem sanitized_next_is_same_origin_path_witness:
  "\<not> (startsWith ''//evil.example/x'' ''/'' \<and> \<not> startsWith ''//evil.example/x'' ''//'')
   \<and> sanitizeNextUrl (Some ''//evil.example/x'') = ''/''
   \<and> sanitizeNextUrl (Some ''https://evil.example'') = ''/''
   \<and> sanitizeNextUrl (Some ''/library'') = ''/library''
   \<and> storedOauthNext (session_of None) ''google'' = None
   \<and> fst (consumeOauthNext (session_of None) ''google'') = ''/''"
proof -
  have a: "\<not> (startsWith ''//evil.example/x'' ''/'' \<and> \<not> startsWith ''//evil.example/x'' ''//'')"
    by (simp add: startsWith_def)
  have b: "\<not> (startsWith ''https://evil.example'' ''/''
              \<and> \<not> startsWith ''https://evil.example'' ''//'')"
    by (simp add: startsWith_def)
  have c: "storedOauthNext (session_of None) ''google'' = None"
    by (simp add: storedOauthNext_def session_of_def)
  have d: "sanitizeNextUrl (Some ''/library'') = ''/library''"
    by code_simp
  show ?thesis
    using sanitized_next_is_same_origin_path
            [of "Some ''/library''" "''//evil.example/x''" "session_of None" "''google''"]
          sanitized_next_is_same_origin_path
            [of "Some ''/library''" "''https://evil.example''" "session_of None" "''google''"]
          a b c d
    by blast
qed
section \<open>Properties of e-mail normalisation\<close>

lemma normalizeEmail_Some: "normalizeEmail bi (Some x) = js_toLowerCase bi (js_trim bi x)"
  by (cases x) (simp_all add: normalizeEmail_def js_or_else_def)

text \<open>Normalising an already normalised e-mail changes nothing.\<close>

lemma normalizeEmail_idem:
  "builtins_sane bi \<Longrightarrow> normalizeEmail bi (Some (normalizeEmail bi e)) = normalizeEmail bi e"
  unfolding normalizeEmail_Some by (simp add: normalizeEmail_def builtins_sane_def)

lemma normalizeEmail_falsy: "builtins_sane bi \<Longrightarrow> \<not> truthy em \<Longrightarrow> normalizeEmail bi em = []"
  by (cases em) (auto simp: normalizeEmail_def js_or_else_def truthy_def builtins_sane_def)

text \<open>The built-ins of the examples have the two properties.\<close>

lemma is_ws_toLower: "is_ws (ascii_toLower c) = is_ws c"
  by (auto simp: is_ws_def ascii_toLower_def split: option.splits if_splits)

lemma toLower_idem: "ascii_toLower (ascii_toLower c) = ascii_toLower c"
  by (auto simp: ascii_toLower_def split: option.splits if_splits)

lemma dropWhile_ws_lower:
  "dropWhile is_ws (map ascii_toLower s) = map ascii_toLower (dropWhile is_ws s)"
  by (induction s) (simp_all add: is_ws_toLower)

lemma trim_lower: "ascii_trim (map ascii_toLower s) = map ascii_toLower (ascii_trim s)"
  by (simp add: ascii_trim_def dropWhile_ws_lower rev_map)

lemma dropWhile_fixed: "xs = [] \<or> \<not> P (hd xs) \<Longrightarrow> dropWhile P xs = xs"
  by (cases xs) auto

lemma trim_idem: "ascii_trim (ascii_trim s) = ascii_trim s"
proof -
  define a where "a = dropWhile is_ws s"
  define b where "b = rev (dropWhile is_ws (rev a))"
  have a_hd: "a = [] \<or> \<not> is_ws (hd a)"
    unfolding a_def by (metis hd_dropWhile)
  have pre: "a = b @ rev (takeWhile is_ws (rev a))"
    unfolding b_def by (metis rev_append rev_rev_ident takeWhile_dropWhile_id)
  have "b = [] \<or> hd b = hd a" using pre by (metis hd_append2)
  then have "b = [] \<or> \<not> is_ws (hd b)" using a_hd pre by auto
  then have 1: "dropWhile is_ws b = b" by (rule dropWhile_fixed)
  have 2: "rev (dropWhile is_ws (rev b)) = b" by (simp add: b_def)
  have "ascii_trim s = b" by (simp add: ascii_trim_def a_def b_def)
  moreover have "ascii_trim b = b" by (simp add: ascii_trim_def 1 2)
  ultimately show ?thesis by simp
qed

lemma ascii_builtins_sane: "builtins_sane ascii_builtins"
  by (simp add: builtins_sane_def ascii_builtins_def ascii_toLowerCase_def trim_lower trim_idem
      toLower_idem)
     (simp add: ascii_trim_def)
section \<open>Track visibility\<close>

text \<open>
  Claim C6. A track whose status is \<open>published\<close> is visible to every requester, anonymous
  included. A track whose status is \<open>pending\<close> or \<open>rejected\<close> is visible exactly when
  the requester is an admin, or an artist whose \<open>artistId\<close> is set and equals the track's
  \<open>artistId\<close>; it is invisible to an anonymous requester and to a requester of role
  \<open>user\<close>.
\<close>

theorem track_visibility:
  "(status t = Some ''published'' \<longrightarrow> isTrackVisibleToUser t usr)
   \<and> (status t = Some ''pending'' \<or> status t = Some ''rejected'' \<longrightarrow>
        (isTrackVisibleToUser t usr \<longleftrightarrow>
           (\<exists>u. usr = Some u \<and>
                (role u = ''admin''
                 \<or> (role u = ''artist'' \<and> truthy (artistId u) \<and> artistId u = track_artistId t))))
        \<and> \<not> isTrackVisibleToUser t None
        \<and> (\<forall>u. role u = ''user'' \<longrightarrow> \<not> isTrackVisibleToUser t (Some u)))"
  by (cases usr) (auto simp: isTrackVisibleToUser_def Let_def js_or_def js_or_else_def truthy_def)

theorem track_visibility_witness:
  "status demo_pending = Some ''pending''
   \<and> isTrackVisibleToUser demo_pending (Some demo_admin)
   \<and> isTrackVisibleToUser demo_pending (Some demo_artist)
   \<and> role demo_user = ''user''
   \<and> \<not> isTrackVisibleToUser demo_pending (Some demo_user)
   \<and> \<not> isTrackVisibleToUser demo_pending None
   \<and> status (demo_pending\<lparr>status := Some ''published''\<rparr>) = Some ''published''
   \<and> isTrackVisibleToUser (demo_pending\<lparr>status := Some ''published''\<rparr>) None"
  using track_visibility [of demo_pending "Some demo_admin"]
        track_visibility [of demo_pending "Some demo_artist"]
        track_visibility [of demo_pending "Some demo_user"]
        track_visibility [of "demo_pending\<lparr>status := Some ''published''\<rparr>" None]
  by (simp add: demo_pending_def demo_admin_def demo_artist_def demo_user_def truthy_def)
section \<open>Properties of the moderation routes\<close>

lemma normalizeTrack_id: "track_id (normalizeTrack bi t) = track_id t"
  by (simp add: normalizeTrack_def Let_def)

lemma find_map_normalizeTrack:
  "find (\<lambda>x. track_id x = tid) (map (normalizeTrack bi) ts)
     = map_option (normalizeTrack bi) (find (\<lambda>x. track_id x = tid) ts)"
  by (induction ts) (simp_all add: normalizeTrack_id)

lemma find_replace_first:
  "find P xs = Some x \<Longrightarrow> P y \<Longrightarrow> find P (replace_first P y xs) = Some y"
  by (induction xs) (auto split: if_splits)



lemma requireRole_admin:
  "requireRole ''admin'' st s = None \<longleftrightarrow> (\<exists>u. getCurrentUser st s = Some u \<and> role u = ''admin'')"
  by (auto simp: requireRole_def split: option.splits)

lemma admin_approve_found:
  assumes "requireRole ''admin'' st s = None"
    and "find (\<lambda>x. track_id x = tid) (TRACKS st) = Some t0"
  shows "admin_approve bi tid now st s =
           (Redirect ''/admin'',
            st\<lparr>TRACKS := replace_first (\<lambda>x. track_id x = tid)
                  ((normalizeTrack bi t0)\<lparr>status := Some ''published'', publishedAt := Some now\<rparr>)
                  (map (normalizeTrack bi) (TRACKS st))\<rparr>)"
  using assms by (simp add: admin_approve_def Let_def find_map_normalizeTrack)

lemma admin_reject_found:
  assumes "requireRole ''admin'' st s = None"
    and "find (\<lambda>x. track_id x = tid) (TRACKS st) = Some t0"
  shows "admin_reject bi tid now st s =
           (Redirect ''/admin'',
            st\<lparr>TRACKS := replace_first (\<lambda>x. track_id x = tid)
                  ((normalizeTrack bi t0)\<lparr>status := Some ''rejected'', rejectedAt := Some now\<rparr>)
                  (map (normalizeTrack bi) (TRACKS st))\<rparr>)"
  using assms by (simp add: admin_reject_def Let_def find_map_normalizeTrack)

lemma admin_approve_missing:
  assumes "requireRole ''admin'' st s = None"
    and "find (\<lambda>x. track_id x = tid) (TRACKS st) = None"
  shows "admin_approve bi tid now st s = (Error NotFound, st)"
  using assms by (simp add: admin_approve_def Let_def find_map_normalizeTrack)

lemma admin_reject_missing:
  assumes "requireRole ''admin'' st s = None"
    and "find (\<lambda>x. track_id x = tid) (TRACKS st) = None"
  shows "admin_reject bi tid now st s = (Error NotFound, st)"
  using assms by (simp add: admin_reject_def Let_def find_map_normalizeTrack)

text \<open>
  Claim C7. For an admin requester, the approve action sets the status of the target
  track (the first track with the given id) to \<open>published\<close> and stamps \<open>publishedAt\<close>,
  and the reject action sets it to \<open>rejected\<close> and stamps \<open>rejectedAt\<close>, whatever the
  track's status was before: nothing is assumed about the status of \<open>t0\<close>. When no
  track has the id, both actions answer NotFound (404) and leave the state, and so the
  track collection, unchanged.
\<close>

theorem approve_reject_overwrite:
  assumes admin: "requireRole ''admin'' st s = None"
  shows "(find (\<lambda>x. track_id x = tid) (TRACKS st) = Some t0 \<longrightarrow>
            fst (admin_approve bi tid now st s) = Redirect ''/admin''
            \<and> (\<exists>t'. find (\<lambda>x. track_id x = tid) (TRACKS (snd (admin_approve bi tid now st s))) = Some t'
                  \<and> t' = (normalizeTrack bi t0)\<lparr>status := Some ''published'', publishedAt := Some now\<rparr>
                  \<and> status t' = Some ''published'' \<and> publishedAt t' = Some now)
            \<and> fst (admin_reject bi tid now st s) = Redirect ''/admin''
            \<and> (\<exists>t'. find (\<lambda>x. track_id x = tid) (TRACKS (snd (admin_reject bi tid now st s))) = Some t'
                  \<and> t' = (normalizeTrack bi t0)\<lparr>status := Some ''rejected'', rejectedAt := Some now\<rparr>
                  \<and> status t' = Some ''rejected'' \<and> rejectedAt t' = Some now))
         \<and> (find (\<lambda>x. track_id x = tid) (TRACKS st) = None \<longrightarrow>
              admin_approve bi tid now st s = (Error NotFound, st)
              \<and> admin_reject bi tid now st s = (Error NotFound, st)
              \<and> status_code NotFound = 404)"
proof (intro conjI impI)
  assume f: "find (\<lambda>x. track_id x = tid) (TRACKS st) = Some t0"
  then have id0: "track_id t0 = tid" by (auto simp: find_Some_iff)
  have fn: "find (\<lambda>x. track_id x = tid) (map (normalizeTrack bi) (TRACKS st)) = Some (normalizeTrack bi t0)"
    by (simp add: find_map_normalizeTrack f)
  show "fst (admin_approve bi tid now st s) = Redirect ''/admin''"
    by (simp add: admin_approve_found [OF admin f])
  show "fst (admin_reject bi tid now st s) = Redirect ''/admin''"
    by (simp add: admin_reject_found [OF admin f])
  show "\<exists>t'. find (\<lambda>x. track_id x = tid) (TRACKS (snd (admin_approve bi tid now st s))) = Some t'
          \<and> t' = (normalizeTrack bi t0)\<lparr>status := Some ''published'', publishedAt := Some now\<rparr>
          \<and> status t' = Some ''published'' \<and> publishedAt t' = Some now"
    by (simp add: admin_approve_found [OF admin f] find_replace_first [OF fn] normalizeTrack_id id0)
  show "\<exists>t'. find (\<lambda>x. track_id x = tid) (TRACKS (snd (admin_reject bi tid now st s))) = Some t'
          \<and> t' = (normalizeTrack bi t0)\<lparr>status := Some ''rejected'', rejectedAt := Some now\<rparr>
          \<and> status t' = Some ''rejected'' \<and> rejectedAt t' = Some now"
    by (simp add: admin_reject_found [OF admin f] find_replace_first [OF fn] normalizeTrack_id id0)
next
  assume f: "find (\<lambda>x. track_id x = tid) (TRACKS st) = None"
  show "admin_approve bi tid now st s = (Error NotFound, st)"
    by (rule admin_approve_missing [OF admin f])
  show "admin_reject bi tid now st s = (Error NotFound, st)"
    by (rule admin_reject_missing [OF admin f])
  show "status_code NotFound = 404" by simp
qed

theorem approve_reject_overwrite_witness:
  "requireRole ''admin'' demo_state (session_of (Some ''u_admin'')) = None
   \<and> find (\<lambda>x. track_id x = ''t2'') (TRACKS demo_state) = Some demo_rejected
   \<and> status demo_rejected = Some ''rejected''
   \<and> find (\<lambda>x. track_id x = ''t2'')
        (TRACKS (snd (admin_approve ascii_builtins ''t2'' ''2024-03-03'' demo_state (session_of (Some ''u_admin'')))))
       = Some (demo_rejected\<lparr>status := Some ''published'', publishedAt := Some ''2024-03-03''\<rparr>)
   \<and> find (\<lambda>x. track_id x = ''t9'') (TRACKS demo_state) = None
   \<and> admin_reject ascii_builtins ''t9'' ''2024-03-03'' demo_state (session_of (Some ''u_admin''))
       = (Error NotFound, demo_state)"
proof -
  have h: "requireRole ''admin'' demo_state (session_of (Some ''u_admin'')) = None"
    by (simp add: requireRole_def getCurrentUser_def findUserById_def demo_state_def session_of_def
        demo_admin_def)
  have n: "normalizeTrack ascii_builtins demo_rejected = demo_rejected"
    by code_simp
  have f2: "find (\<lambda>x. track_id x = ''t2'') (TRACKS demo_state) = Some demo_rejected"
    by (simp add: demo_state_def demo_pending_def demo_rejected_def)
  have f9: "find (\<lambda>x. track_id x = ''t9'') (TRACKS demo_state) = None"
    by (simp add: demo_state_def demo_pending_def demo_rejected_def demo_legacy_def
        demo_published_def)
  show ?thesis
    using approve_reject_overwrite [OF h, of "''t2''" demo_rejected ascii_builtins "''2024-03-03''"]
          approve_reject_overwrite [OF h, of "''t9''" demo_rejected ascii_builtins "''2024-03-03''"]
          h n f2 f9
    by (simp add: demo_rejected_def)
qed
section \<open>The frame of approve and reject\<close>

lemma normalizeTrack_closed:
  "normalizeTrack bi t =
     t\<lparr>status := (if truthy (status t) then status t
                  else if published t = Some False then Some ''pending'' else Some ''published''),
       cover := (if truthy (cover t) then cover t else Some ''/assets/covers/default.png''),
       audio := (if truthy (audio t) then audio t else Some ''/audio/sample.wav''),
       duration := (if truthy (duration t) then duration t else Some ''0:00''),
       plays := (if isFiniteNumber bi (plays t) then plays t else Some (JNum (Finite ''0''))),
       likes := (if isFiniteNumber bi (likes t) then likes t else Some (JNum (Finite ''0'')))\<rparr>"
proof -
  have s: "(if c then r\<lparr>status := a\<rparr> else r) = r\<lparr>status := (if c then a else status r)\<rparr>"
    for c a and r :: track by simp
  have c: "(if c then r\<lparr>cover := a\<rparr> else r) = r\<lparr>cover := (if c then a else cover r)\<rparr>"
    for c a and r :: track by simp
  have a: "(if c then r\<lparr>audio := a\<rparr> else r) = r\<lparr>audio := (if c then a else audio r)\<rparr>"
    for c a and r :: track by simp
  have d: "(if c then r\<lparr>duration := a\<rparr> else r) = r\<lparr>duration := (if c then a else duration r)\<rparr>"
    for c a and r :: track by simp
  have p: "(if c then r\<lparr>plays := a\<rparr> else r) = r\<lparr>plays := (if c then a else plays r)\<rparr>"
    for c a and r :: track by simp
  have l: "(if c then r\<lparr>likes := a\<rparr> else r) = r\<lparr>likes := (if c then a else likes r)\<rparr>"
    for c a and r :: track by simp
  have s2: "(if c then (if e then r\<lparr>status := a\<rparr> else r\<lparr>status := b\<rparr>) else r)
              = r\<lparr>status := (if c then (if e then a else b) else status r)\<rparr>"
    for c e a b and r :: track by simp
  have n: "(if \<not> c then x else y) = (if c then y else x)" for c and x y :: "'b" by simp
  show ?thesis
    unfolding normalizeTrack_def Let_def s2 c a d p l n by simp
qed





section \<open>Deleting a track\<close>

lemma filter_map_normalizeTrack:
  "filter (\<lambda>x. track_id x \<noteq> tid) (map (normalizeTrack bi) ts)
     = map (normalizeTrack bi) (filter (\<lambda>x. track_id x \<noteq> tid) ts)"
  by (induction ts) (simp_all add: normalizeTrack_id)

lemma admin_delete_eq:
  assumes "requireRole ''admin'' st s = None"
  shows "admin_delete bi tid st s =
           (Redirect ''/admin'',
            st\<lparr>TRACKS := map (normalizeTrack bi) (filter (\<lambda>x. track_id x \<noteq> tid) (TRACKS st)),
               PLAYLISTS := map (\<lambda>p. p\<lparr>trackIds :=
                               (case trackIds p of Some ids \<Rightarrow> Some (filter (\<lambda>i. i \<noteq> tid) ids)
                                | None \<Rightarrow> Some [])\<rparr>) (PLAYLISTS st)\<rparr>)"
  using assms by (simp add: admin_delete_def Let_def filter_map_normalizeTrack)

text \<open>
  Claim C9. For every track id, the admin delete action removes every track with that id
  from the track collection and keeps all other tracks, in their order (each one
  normalised); in every playlist it removes the id from \<open>trackIds\<close> and keeps the
  remaining ids in their relative order (a playlist whose \<open>trackIds\<close> is not an array
  gets the empty array). The number of playlists, their ids and titles do not change.
\<close>

theorem delete_cascades:
  assumes admin: "requireRole ''admin'' st s = None"
  shows "fst (admin_delete bi tid st s) = Redirect ''/admin''
     \<and> (\<forall>t \<in> set (TRACKS (snd (admin_delete bi tid st s))). track_id t \<noteq> tid)
     \<and> TRACKS (snd (admin_delete bi tid st s))
          = map (normalizeTrack bi) (filter (\<lambda>x. track_id x \<noteq> tid) (TRACKS st))
     \<and> map track_id (TRACKS (snd (admin_delete bi tid st s)))
          = filter (\<lambda>i. i \<noteq> tid) (map track_id (TRACKS st))
     \<and> length (PLAYLISTS (snd (admin_delete bi tid st s))) = length (PLAYLISTS st)
     \<and> (\<forall>k < length (PLAYLISTS st).
           playlist_id (PLAYLISTS (snd (admin_delete bi tid st s)) ! k) = playlist_id (PLAYLISTS st ! k)
           \<and> playlist_title (PLAYLISTS (snd (admin_delete bi tid st s)) ! k)
               = playlist_title (PLAYLISTS st ! k)
           \<and> trackIds (PLAYLISTS (snd (admin_delete bi tid st s)) ! k)
               = Some (filter (\<lambda>i. i \<noteq> tid)
                   (case trackIds (PLAYLISTS st ! k) of Some ids \<Rightarrow> ids | None \<Rightarrow> []))
           \<and> (\<forall>ids. trackIds (PLAYLISTS (snd (admin_delete bi tid st s)) ! k) = Some ids
                  \<longrightarrow> tid \<notin> set ids))"
proof -
  let ?st' = "snd (admin_delete bi tid st s)"
  have t: "TRACKS ?st' = map (normalizeTrack bi) (filter (\<lambda>x. track_id x \<noteq> tid) (TRACKS st))"
    by (simp add: admin_delete_eq [OF admin])
  have p: "PLAYLISTS ?st' = map (\<lambda>p. p\<lparr>trackIds :=
                               (case trackIds p of Some ids \<Rightarrow> Some (filter (\<lambda>i. i \<noteq> tid) ids)
                                | None \<Rightarrow> Some [])\<rparr>) (PLAYLISTS st)"
    by (simp add: admin_delete_eq [OF admin])
  have 1: "fst (admin_delete bi tid st s) = Redirect ''/admin''"
    by (simp add: admin_delete_eq [OF admin])
  have 2: "\<forall>t \<in> set (TRACKS ?st'). track_id t \<noteq> tid"
    by (auto simp: t normalizeTrack_id)
  have 3: "map track_id (TRACKS ?st') = filter (\<lambda>i. i \<noteq> tid) (map track_id (TRACKS st))"
    by (simp add: t filter_map comp_def normalizeTrack_id)
  have 4: "length (PLAYLISTS ?st') = length (PLAYLISTS st)"
    by (simp add: p)
  have 5: "playlist_id (PLAYLISTS ?st' ! k) = playlist_id (PLAYLISTS st ! k)
           \<and> playlist_title (PLAYLISTS ?st' ! k) = playlist_title (PLAYLISTS st ! k)
           \<and> trackIds (PLAYLISTS ?st' ! k)
               = Some (filter (\<lambda>i. i \<noteq> tid)
                   (case trackIds (PLAYLISTS st ! k) of Some ids \<Rightarrow> ids | None \<Rightarrow> []))
           \<and> (\<forall>ids. trackIds (PLAYLISTS ?st' ! k) = Some ids \<longrightarrow> tid \<notin> set ids)"
    if "k < length (PLAYLISTS st)" for k
    using that by (auto simp: p split: option.splits)
  show ?thesis using 1 2 t 3 4 5 by blast
qed

theorem delete_cascades_witness:
  "requireRole ''admin'' demo_state (session_of (Some ''u_admin'')) = None
   \<and> map track_id (TRACKS (snd (admin_delete ascii_builtins ''t4'' demo_state (session_of (Some ''u_admin'')))))
       = [''t1'', ''t2'', ''t3'']
   \<and> (0::nat) < length (PLAYLISTS demo_state)
   \<and> trackIds (PLAYLISTS demo_state ! 0) = Some [''t1'', ''t4'', ''t2'', ''t4'']
   \<and> trackIds (PLAYLISTS (snd (admin_delete ascii_builtins ''t4'' demo_state (session_of (Some ''u_admin'')))) ! 0)
       = Some [''t1'', ''t2'']"
proof -
  have h: "requireRole ''admin'' demo_state (session_of (Some ''u_admin'')) = None"
    by (simp add: requireRole_def getCurrentUser_def findUserById_def demo_state_def session_of_def
        demo_admin_def)
  note T = delete_cascades [OF h, where bi = ascii_builtins and tid = "''t4''"]
  have ids: "map track_id (TRACKS demo_state) = [''t1'', ''t2'', ''t3'', ''t4'']"
    by (simp add: demo_state_def demo_pending_def demo_rejected_def demo_legacy_def
        demo_published_def)
  have a: "map track_id (TRACKS (snd (admin_delete ascii_builtins ''t4'' demo_state (session_of (Some ''u_admin'')))))
       = filter (\<lambda>i. i \<noteq> ''t4'') (map track_id (TRACKS demo_state))"
    using T by blast
  have k: "(0::nat) < length (PLAYLISTS demo_state)" by (simp add: demo_state_def)
  have p0: "trackIds (PLAYLISTS demo_state ! 0) = Some [''t1'', ''t4'', ''t2'', ''t4'']"
    by (simp add: demo_state_def)
  have b: "trackIds (PLAYLISTS (snd (admin_delete ascii_builtins ''t4'' demo_state (session_of (Some ''u_admin'')))) ! 0)
       = Some (filter (\<lambda>i. i \<noteq> ''t4'')
                   (case trackIds (PLAYLISTS demo_state ! 0) of Some ids \<Rightarrow> ids | None \<Rightarrow> []))"
    using T k by blast
  show ?thesis using h k p0 a b by (simp add: ids)
qed
section \<open>Merging guest likes\<close>

lemma set_set_add: "set (set_add acc x) = insert x (set acc)"
  by (auto simp: set_add_def)

lemma distinct_set_add: "distinct acc \<Longrightarrow> distinct (set_add acc x)"
  by (simp add: set_add_def)

lemma set_foldl_set_add: "set (foldl set_add acc xs) = set acc \<union> set xs"
  by (induction xs arbitrary: acc) (auto simp: set_set_add)

lemma distinct_foldl_set_add: "distinct acc \<Longrightarrow> distinct (foldl set_add acc xs)"
  by (induction xs arbitrary: acc) (simp_all add: distinct_set_add)

lemma set_new_Set: "set (new_Set xs) = set xs"
  by (simp add: new_Set_def set_foldl_set_add)

lemma distinct_new_Set: "distinct (new_Set xs)"
  by (simp add: new_Set_def distinct_foldl_set_add)

lemma set_set_delete: "set (set_delete acc x) = set acc - {x}"
  by (auto simp: set_delete_def)

lemma getUserLikes_setUserLikes:
  "getUserLikes (setUserLikes st u l) v = (if v = u then l else getUserLikes st v)"
  by (simp add: getUserLikes_def setUserLikes_def)

lemma fst_getGuestLikes_snd: "fst (getGuestLikes (snd (getGuestLikes s))) = fst (getGuestLikes s)"
  by (simp add: getGuestLikes_def split: option.splits)

text \<open>
  Claim C4. \<open>mergeGuestLikesIntoUser\<close> makes the user's persisted like-set the union of
  the previous persisted set and the session's guest like-set, and leaves the guest set
  empty. It is idempotent: run a second time right after the first, it returns the
  same state and session. The likes of every other user are unchanged.
\<close>

theorem merge_guest_likes_union_idempotent:
  "set (getUserLikes (fst (mergeGuestLikesIntoUser (st, s) u)) u)
      = set (getUserLikes st u) \<union> set (fst (getGuestLikes s))
   \<and> fst (getGuestLikes (snd (mergeGuestLikesIntoUser (st, s) u))) = []
   \<and> guestLikes (snd (mergeGuestLikesIntoUser (st, s) u)) = Some []
   \<and> mergeGuestLikesIntoUser (mergeGuestLikesIntoUser (st, s) u) u
        = mergeGuestLikesIntoUser (st, s) u
   \<and> (\<forall>v. v \<noteq> u \<longrightarrow> getUserLikes (fst (mergeGuestLikesIntoUser (st, s) u)) v = getUserLikes st v)"
proof (cases "guestLikes s")
  case None
  then show ?thesis
    by (simp add: mergeGuestLikesIntoUser_def getGuestLikes_def)
next
  case (Some g)
  show ?thesis
  proof (cases "g = []")
    case True
    with Some show ?thesis
      by (simp add: mergeGuestLikesIntoUser_def getGuestLikes_def)
  next
    case False
    with Some show ?thesis
      by (simp add: mergeGuestLikesIntoUser_def getGuestLikes_def getUserLikes_setUserLikes
          set_foldl_set_add set_new_Set)
  qed
qed

theorem merge_guest_likes_union_idempotent_witness:
  "getUserLikes merge_state ''u_user'' = [''B'', ''C'']
   \<and> fst (getGuestLikes merge_session) = [''A'', ''B'']
   \<and> set (getUserLikes (fst (mergeGuestLikesIntoUser (merge_state, merge_session) ''u_user'')) ''u_user'')
       = {''A'', ''B'', ''C''}
   \<and> ''u_admin'' \<noteq> ''u_user''
   \<and> getUserLikes (fst (mergeGuestLikesIntoUser (merge_state, merge_session) ''u_user'')) ''u_admin''
       = []"
proof -
  have u: "getUserLikes merge_state ''u_user'' = [''B'', ''C'']"
    by (simp add: merge_state_def getUserLikes_def)
  have a: "getUserLikes merge_state ''u_admin'' = []"
    by (simp add: merge_state_def getUserLikes_def)
  have g: "fst (getGuestLikes merge_session) = [''A'', ''B'']"
    by (simp add: merge_session_def getGuestLikes_def session_of_def)
  show ?thesis
    using merge_guest_likes_union_idempotent [of merge_state merge_session "''u_user''"] u a g
    by auto
qed
section \<open>Properties of the like API\<close>

lemma getCurrentUser_guestLikes:
  "getCurrentUser st (s\<lparr>guestLikes := g\<rparr>) = getCurrentUser st s"
  by (simp add: getCurrentUser_def)

lemma exposeAuthInfo_eq:
  "exposeAuthInfo st s = (if getCurrentUser st s = None then snd (getGuestLikes s) else s)"
  by (auto simp: exposeAuthInfo_def getEffectiveLikes_def split: option.splits)

lemma getCurrentUser_exposeAuthInfo: "getCurrentUser st (exposeAuthInfo st s) = getCurrentUser st s"
  by (simp add: exposeAuthInfo_eq getGuestLikes_def getCurrentUser_guestLikes split: option.splits)

lemma getGuestLikes_exposeAuthInfo:
  "fst (getGuestLikes (exposeAuthInfo st s)) = fst (getGuestLikes s)"
  by (simp add: exposeAuthInfo_eq fst_getGuestLikes_snd)

lemma api_like_notfound:
  "find (\<lambda>t. track_id t = tid) (TRACKS st) = None \<Longrightarrow> api_like bi tid st s = (Error NotFound, st, s)"
  by (simp add: api_like_def Let_def find_map_normalizeTrack)

lemma api_like_forbidden:
  "find (\<lambda>t. track_id t = tid) (TRACKS st) = Some t \<Longrightarrow>
   \<not> isTrackVisibleToUser (normalizeTrack bi t) (getCurrentUser st s) \<Longrightarrow>
   api_like bi tid st s = (Error Forbidden, st, s)"
  by (simp add: api_like_def Let_def find_map_normalizeTrack)

lemma api_like_user:
  "find (\<lambda>t. track_id t = tid) (TRACKS st) = Some t \<Longrightarrow>
   isTrackVisibleToUser (normalizeTrack bi t) (getCurrentUser st s) \<Longrightarrow>
   getCurrentUser st s = Some u \<Longrightarrow>
   api_like bi tid st s =
     (LikeJson (tid \<notin> set (getUserLikes st (user_id u)))
        (if tid \<in> set (getUserLikes st (user_id u))
         then set_delete (new_Set (getUserLikes st (user_id u))) tid
         else set_add (new_Set (getUserLikes st (user_id u))) tid) False,
      setUserLikes st (user_id u)
        (if tid \<in> set (getUserLikes st (user_id u))
         then set_delete (new_Set (getUserLikes st (user_id u))) tid
         else set_add (new_Set (getUserLikes st (user_id u))) tid),
      s)"
  by (simp add: api_like_def Let_def find_map_normalizeTrack set_new_Set getUserLikes_setUserLikes)

lemma api_like_guest:
  "find (\<lambda>t. track_id t = tid) (TRACKS st) = Some t \<Longrightarrow>
   isTrackVisibleToUser (normalizeTrack bi t) (getCurrentUser st s) \<Longrightarrow>
   getCurrentUser st s = None \<Longrightarrow>
   api_like bi tid st s =
     (LikeJson (tid \<notin> set (fst (getGuestLikes s)))
        (if tid \<in> set (fst (getGuestLikes s))
         then set_delete (new_Set (fst (getGuestLikes s))) tid
         else set_add (new_Set (fst (getGuestLikes s))) tid) True,
      st,
      (snd (getGuestLikes s))\<lparr>guestLikes := Some
        (if tid \<in> set (fst (getGuestLikes s))
         then set_delete (new_Set (fst (getGuestLikes s))) tid
         else set_add (new_Set (fst (getGuestLikes s))) tid)\<rparr>)"
  by (simp add: api_like_def Let_def find_map_normalizeTrack set_new_Set split_def)

lemma set_toggle_list:
  "set (if tid \<in> set xs then set_delete (new_Set xs) tid else set_add (new_Set xs) tid)
     = toggled tid (set xs)"
  by (simp add: toggled_def set_set_delete set_set_add set_new_Set)

text \<open>
  Claim C5. For every request \<open>POST /api/like/:trackId\<close>: when no track has the id the
  answer is NotFound, and when the track exists but is not visible to the caller the
  answer is Forbidden; in both cases the persisted state (so every persisted like-set)
  and the guest like-set of the session are as before. Otherwise the request toggles
  the membership of the id in the applicable store, the user's persisted likes when
  authenticated and the session's guest likes when not: \<open>liked\<close> is true exactly when
  the id was absent, the store afterwards is the old set with the id added or removed,
  and the returned \<open>likes\<close> is the store after the toggle. Visibility is decided on the
  normalised track.
\<close>

theorem like_toggle:
  "(find (\<lambda>t. track_id t = tid) (TRACKS st) = None \<longrightarrow>
      fst (post_api_like bi tid st s) = Error NotFound
      \<and> fst (snd (post_api_like bi tid st s)) = st
      \<and> fst (getGuestLikes (snd (snd (post_api_like bi tid st s)))) = fst (getGuestLikes s))
   \<and> (find (\<lambda>t. track_id t = tid) (TRACKS st) = Some t
        \<and> \<not> isTrackVisibleToUser (normalizeTrack bi t) (getCurrentUser st s) \<longrightarrow>
      fst (post_api_like bi tid st s) = Error Forbidden
      \<and> fst (snd (post_api_like bi tid st s)) = st
      \<and> fst (getGuestLikes (snd (snd (post_api_like bi tid st s)))) = fst (getGuestLikes s))
   \<and> (find (\<lambda>t. track_id t = tid) (TRACKS st) = Some t
        \<and> isTrackVisibleToUser (normalizeTrack bi t) (getCurrentUser st s)
        \<and> getCurrentUser st s = Some u \<longrightarrow>
      fst (post_api_like bi tid st s)
        = LikeJson (tid \<notin> set (getUserLikes st (user_id u)))
            (getUserLikes (fst (snd (post_api_like bi tid st s))) (user_id u)) False
      \<and> set (getUserLikes (fst (snd (post_api_like bi tid st s))) (user_id u))
           = toggled tid (set (getUserLikes st (user_id u)))
      \<and> snd (snd (post_api_like bi tid st s)) = s)
   \<and> (find (\<lambda>t. track_id t = tid) (TRACKS st) = Some t
        \<and> isTrackVisibleToUser (normalizeTrack bi t) (getCurrentUser st s)
        \<and> getCurrentUser st s = None \<longrightarrow>
      fst (post_api_like bi tid st s)
        = LikeJson (tid \<notin> set (fst (getGuestLikes s)))
            (fst (getGuestLikes (snd (snd (post_api_like bi tid st s))))) True
      \<and> set (fst (getGuestLikes (snd (snd (post_api_like bi tid st s)))))
           = toggled tid (set (fst (getGuestLikes s)))
      \<and> fst (snd (post_api_like bi tid st s)) = st)"
proof (intro conjI impI)
  assume f: "find (\<lambda>t. track_id t = tid) (TRACKS st) = None"
  have e: "post_api_like bi tid st s = (Error NotFound, st, exposeAuthInfo st s)"
    by (simp add: post_api_like_def api_like_notfound [OF f])
  show "fst (post_api_like bi tid st s) = Error NotFound" by (simp add: e)
  show "fst (snd (post_api_like bi tid st s)) = st" by (simp add: e)
  show "fst (getGuestLikes (snd (snd (post_api_like bi tid st s)))) = fst (getGuestLikes s)"
    by (simp add: e getGuestLikes_exposeAuthInfo)
next
  assume a: "find (\<lambda>t. track_id t = tid) (TRACKS st) = Some t
        \<and> \<not> isTrackVisibleToUser (normalizeTrack bi t) (getCurrentUser st s)"
  then have e: "post_api_like bi tid st s = (Error Forbidden, st, exposeAuthInfo st s)"
    by (simp add: post_api_like_def api_like_forbidden getCurrentUser_exposeAuthInfo)
  show "fst (post_api_like bi tid st s) = Error Forbidden" by (simp add: e)
  show "fst (snd (post_api_like bi tid st s)) = st" by (simp add: e)
  show "fst (getGuestLikes (snd (snd (post_api_like bi tid st s)))) = fst (getGuestLikes s)"
    by (simp add: e getGuestLikes_exposeAuthInfo)
next
  assume a: "find (\<lambda>t. track_id t = tid) (TRACKS st) = Some t
        \<and> isTrackVisibleToUser (normalizeTrack bi t) (getCurrentUser st s)
        \<and> getCurrentUser st s = Some u"
  then have x: "exposeAuthInfo st s = s" by (simp add: exposeAuthInfo_eq)
  from a have e: "post_api_like bi tid st s = api_like bi tid st s" by (simp add: post_api_like_def x)
  from a have a1: "find (\<lambda>t. track_id t = tid) (TRACKS st) = Some t"
    and a2: "isTrackVisibleToUser (normalizeTrack bi t) (getCurrentUser st s)"
    and a3: "getCurrentUser st s = Some u" by blast+
  note r = api_like_user [OF a1 a2 a3]
  show "fst (post_api_like bi tid st s)
        = LikeJson (tid \<notin> set (getUserLikes st (user_id u)))
            (getUserLikes (fst (snd (post_api_like bi tid st s))) (user_id u)) False"
    by (simp add: e r getUserLikes_setUserLikes)
  show "set (getUserLikes (fst (snd (post_api_like bi tid st s))) (user_id u))
           = toggled tid (set (getUserLikes st (user_id u)))"
    by (simp add: e r getUserLikes_setUserLikes set_toggle_list)
  show "snd (snd (post_api_like bi tid st s)) = s"
    by (simp add: e r)
next
  assume a: "find (\<lambda>t. track_id t = tid) (TRACKS st) = Some t
        \<and> isTrackVisibleToUser (normalizeTrack bi t) (getCurrentUser st s)
        \<and> getCurrentUser st s = None"
  then have x: "exposeAuthInfo st s = snd (getGuestLikes s)" by (simp add: exposeAuthInfo_eq)
  have g: "fst (getGuestLikes (snd (getGuestLikes s))) = fst (getGuestLikes s)"
    by (rule fst_getGuestLikes_snd)
  have c: "getCurrentUser st (snd (getGuestLikes s)) = getCurrentUser st s"
    using getCurrentUser_exposeAuthInfo [of st s] by (simp add: x)
  from a have a1: "find (\<lambda>t. track_id t = tid) (TRACKS st) = Some t"
    and a2: "isTrackVisibleToUser (normalizeTrack bi t) (getCurrentUser st (snd (getGuestLikes s)))"
    and a3: "getCurrentUser st (snd (getGuestLikes s)) = None" unfolding c by blast+
  note r = api_like_guest [OF a1 a2 a3, unfolded g]
  have e: "post_api_like bi tid st s = api_like bi tid st (snd (getGuestLikes s))"
    by (simp add: post_api_like_def x)
  have gl: "fst (getGuestLikes (z\<lparr>guestLikes := Some l\<rparr>)) = l" for z l
    by (simp add: getGuestLikes_def)
  show "fst (post_api_like bi tid st s)
        = LikeJson (tid \<notin> set (fst (getGuestLikes s)))
            (fst (getGuestLikes (snd (snd (post_api_like bi tid st s))))) True"
    by (simp add: e r gl)
  show "set (fst (getGuestLikes (snd (snd (post_api_like bi tid st s)))))
           = toggled tid (set (fst (getGuestLikes s)))"
    by (simp add: e r gl set_toggle_list)
  show "fst (snd (post_api_like bi tid st s)) = st"
    by (simp add: e r)
qed


theorem like_toggle_witness:
  "find (\<lambda>t. track_id t = ''t9'') (TRACKS demo_state) = None
   \<and> fst (post_api_like ascii_builtins ''t9'' demo_state (session_of None)) = Error NotFound
   \<and> find (\<lambda>t. track_id t = ''t1'') (TRACKS demo_state) = Some demo_pending
   \<and> \<not> isTrackVisibleToUser (normalizeTrack ascii_builtins demo_pending)
          (getCurrentUser demo_state (session_of (Some ''u_user'')))
   \<and> fst (post_api_like ascii_builtins ''t1'' demo_state (session_of (Some ''u_user''))) = Error Forbidden
   \<and> fst (snd (post_api_like ascii_builtins ''t1'' demo_state (session_of (Some ''u_user'')))) = demo_state
   \<and> find (\<lambda>t. track_id t = ''t4'') (TRACKS demo_state) = Some demo_published
   \<and> isTrackVisibleToUser (normalizeTrack ascii_builtins demo_published)
          (getCurrentUser demo_state (session_of (Some ''u_user'')))
   \<and> getCurrentUser demo_state (session_of (Some ''u_user'')) = Some demo_user
   \<and> getUserLikes demo_state ''u_user'' = [''t4'']
   \<and> fst (post_api_like ascii_builtins ''t4'' demo_state (session_of (Some ''u_user'')))
        = LikeJson False
            (getUserLikes (fst (snd (post_api_like ascii_builtins ''t4'' demo_state (session_of (Some ''u_user'')))))
               ''u_user'') False
   \<and> set (getUserLikes (fst (snd (post_api_like ascii_builtins ''t4'' demo_state (session_of (Some ''u_user'')))))
               ''u_user'') = {}
   \<and> isTrackVisibleToUser (normalizeTrack ascii_builtins demo_published)
          (getCurrentUser demo_state (session_of None))
   \<and> getCurrentUser demo_state (session_of None) = None
   \<and> fst (post_api_like ascii_builtins ''t4'' demo_state (session_of None))
        = LikeJson True
            (fst (getGuestLikes (snd (snd (post_api_like ascii_builtins ''t4'' demo_state (session_of None)))))) True
   \<and> set (fst (getGuestLikes (snd (snd (post_api_like ascii_builtins ''t4'' demo_state (session_of None))))))
        = {''t4''}"
proof -
  have f9: "find (\<lambda>t. track_id t = ''t9'') (TRACKS demo_state) = None"
    by (simp add: demo_state_def demo_pending_def demo_rejected_def demo_legacy_def
        demo_published_def)
  have f1: "find (\<lambda>t. track_id t = ''t1'') (TRACKS demo_state) = Some demo_pending"
    by (simp add: demo_state_def demo_pending_def)
  have f4: "find (\<lambda>t. track_id t = ''t4'') (TRACKS demo_state) = Some demo_published"
    by (simp add: demo_state_def demo_pending_def demo_rejected_def demo_legacy_def
        demo_published_def)
  have cu: "getCurrentUser demo_state (session_of (Some ''u_user'')) = Some demo_user"
    by (simp add: getCurrentUser_def findUserById_def session_of_def demo_state_def
        demo_admin_def demo_artist_def demo_user_def)
  have cg: "getCurrentUser demo_state (session_of None) = None"
    by (simp add: getCurrentUser_def session_of_def)
  have v1: "\<not> isTrackVisibleToUser (normalizeTrack ascii_builtins demo_pending)
          (getCurrentUser demo_state (session_of (Some ''u_user'')))"
    unfolding cu
    by (simp add: isTrackVisibleToUser_def normalizeTrack_closed demo_pending_def demo_user_def
        js_or_def js_or_else_def truthy_def)
  have v4: "isTrackVisibleToUser (normalizeTrack ascii_builtins demo_published) w" for w
    by (simp add: isTrackVisibleToUser_def normalizeTrack_closed demo_published_def
        js_or_def js_or_else_def truthy_def)
  have ul: "getUserLikes demo_state ''u_user'' = [''t4'']"
    by (simp add: getUserLikes_def demo_state_def)
  have uid: "user_id demo_user = ''u_user''" by (simp add: demo_user_def)
  have gl: "fst (getGuestLikes (session_of None)) = []"
    by (simp add: getGuestLikes_def session_of_def)
  note T9 = like_toggle [where bi = ascii_builtins and tid = "''t9''" and st = demo_state and s = "session_of None" and t = demo_pending
      and u = demo_user]
  note T1 = like_toggle [where bi = ascii_builtins and tid = "''t1''" and st = demo_state and s = "session_of (Some ''u_user'')" and t = demo_pending
      and u = demo_user]
  note T4u = like_toggle [where bi = ascii_builtins and tid = "''t4''" and st = demo_state and s = "session_of (Some ''u_user'')" and t = demo_published
      and u = demo_user, unfolded uid ul]
  note T4g = like_toggle [where bi = ascii_builtins and tid = "''t4''" and st = demo_state and s = "session_of None" and t = demo_published
      and u = demo_user,
      unfolded gl]
  have tg: "toggled ''t4'' (set [''t4'']) = {}" "toggled ''t4'' (set []) = {''t4''}"
    by (simp_all add: toggled_def)
  have m: "(''t4'' \<notin> set [''t4'']) = False" "(''t4'' \<notin> set []) = True" by simp_all
  have r9: "fst (post_api_like ascii_builtins ''t9'' demo_state (session_of None)) = Error NotFound"
    using T9 f9 by blast
  have r1: "fst (post_api_like ascii_builtins ''t1'' demo_state (session_of (Some ''u_user''))) = Error Forbidden
       \<and> fst (snd (post_api_like ascii_builtins ''t1'' demo_state (session_of (Some ''u_user'')))) = demo_state"
    using T1 f1 v1 by blast
  have r4u: "fst (post_api_like ascii_builtins ''t4'' demo_state (session_of (Some ''u_user'')))
        = LikeJson False
            (getUserLikes (fst (snd (post_api_like ascii_builtins ''t4'' demo_state (session_of (Some ''u_user'')))))
               ''u_user'') False
       \<and> set (getUserLikes (fst (snd (post_api_like ascii_builtins ''t4'' demo_state (session_of (Some ''u_user'')))))
               ''u_user'') = {}"
    using T4u [unfolded tg m] f4 v4 cu by blast
  have r4g: "fst (post_api_like ascii_builtins ''t4'' demo_state (session_of None))
        = LikeJson True
            (fst (getGuestLikes (snd (snd (post_api_like ascii_builtins ''t4'' demo_state (session_of None)))))) True
       \<and> set (fst (getGuestLikes (snd (snd (post_api_like ascii_builtins ''t4'' demo_state (session_of None))))))
        = {''t4''}"
    using T4g [unfolded tg m] f4 v4 cg by blast
  show ?thesis using f9 f1 f4 cu cg v1 v4 ul r9 r1 r4u r4g by blast
qed
section \<open>Properties of the OAuth callback\<close>

lemma mergeGuestLikes_session:
  "oauthStates (snd (mergeGuestLikesIntoUser (st, s) u)) = oauthStates s"
  "oauthNext (snd (mergeGuestLikesIntoUser (st, s) u)) = oauthNext s"
  "userId (snd (mergeGuestLikesIntoUser (st, s) u)) = userId s"
  by (simp_all add: mergeGuestLikesIntoUser_def getGuestLikes_def Let_def split: option.splits)

lemma exposeAuthInfo_session:
  "oauthStates (exposeAuthInfo st s) = oauthStates s"
  "oauthNext (exposeAuthInfo st s) = oauthNext s"
  "userId (exposeAuthInfo st s) = userId s"
  by (simp_all add: exposeAuthInfo_eq getGuestLikes_def split: option.splits)

lemma consumeOauthNext_session:
  "oauthStates (snd (consumeOauthNext s prov)) = oauthStates s"
  "storedOauthNext (snd (consumeOauthNext s prov)) prov = None"
  "q \<noteq> prov \<Longrightarrow> storedOauthNext (snd (consumeOauthNext s prov)) q = storedOauthNext s q"
  "fst (consumeOauthNext s prov) = sanitizeNextUrl (js_or (storedOauthNext s prov) (Some ''/''))"
  by (simp_all add: consumeOauthNext_def storedOauthNext_def Let_def split: option.splits)

lemma storedOauthState_cong: "oauthStates a = oauthStates b \<Longrightarrow> storedOauthState a p = storedOauthState b p"
  by (simp add: storedOauthState_def)

lemma storedOauthNext_cong: "oauthNext a = oauthNext b \<Longrightarrow> storedOauthNext a p = storedOauthNext b p"
  by (simp add: storedOauthNext_def)

lemma checkOauthState_cong: "oauthStates a = oauthStates b \<Longrightarrow> checkOauthState a p t = checkOauthState b p t"
  by (simp add: checkOauthState_def storedOauthState_def)

text \<open>No branch of the callback writes \<open>oauthStates\<close>.\<close>

lemma oauth_callback_keeps_states:
  "oauthStates (snd (snd (oauth_callback bi prov qs qc ex now newId st s))) = oauthStates s"
  by (simp add: oauth_callback_def Let_def split_def mergeGuestLikes_session
      consumeOauthNext_session split: sum.splits)

lemma storedOauthNext_after_merge:
  "storedOauthNext (snd (mergeGuestLikesIntoUser (st, s\<lparr>userId := x\<rparr>) u)) p = storedOauthNext s p"
  by (simp add: storedOauthNext_def mergeGuestLikes_session)

lemma oauth_callback_redirect:
  "fst (oauth_callback bi prov qs qc ex now newId st s) = Redirect target
     \<longleftrightarrow> checkOauthState s prov qs \<and> truthy qc \<and> (\<exists>me. ex = Inr me)
          \<and> target = sanitizeNextUrl (js_or (storedOauthNext s prov) (Some ''/''))"
  by (cases ex)
     (auto simp: oauth_callback_def Let_def split_def consumeOauthNext_session
        storedOauthNext_after_merge)

lemma oauth_callback_badstate:
  "fst (oauth_callback bi prov qs qc ex now newId st s) = Error BadState \<longleftrightarrow> \<not> checkOauthState s prov qs"
  by (cases ex) (auto simp: oauth_callback_def Let_def split_def)

lemma oauth_callback_consumes_next:
  "fst (oauth_callback bi prov qs qc ex now newId st s) = Redirect target \<Longrightarrow>
     storedOauthNext (snd (snd (oauth_callback bi prov qs qc ex now newId st s))) prov = None"
  by (cases ex)
     (auto simp: oauth_callback_def Let_def split_def consumeOauthNext_session split: if_splits)

lemma get_oauth_callback_redirect:
  "fst (get_oauth_callback bi prov qs qc ex now newId st s) = Redirect target
     \<longleftrightarrow> checkOauthState s prov qs \<and> truthy qc \<and> (\<exists>me. ex = Inr me)
          \<and> target = sanitizeNextUrl (js_or (storedOauthNext s prov) (Some ''/''))"
  unfolding get_oauth_callback_def oauth_callback_redirect
  by (simp add: checkOauthState_cong [OF exposeAuthInfo_session(1)]
      storedOauthNext_cong [OF exposeAuthInfo_session(2)])

lemma get_oauth_callback_badstate:
  "fst (get_oauth_callback bi prov qs qc ex now newId st s) = Error BadState
     \<longleftrightarrow> \<not> checkOauthState s prov qs"
  unfolding get_oauth_callback_def oauth_callback_badstate
  by (simp add: checkOauthState_cong [OF exposeAuthInfo_session(1)])

lemma get_oauth_callback_keeps_states:
  "oauthStates (snd (snd (get_oauth_callback bi prov qs qc ex now newId st s))) = oauthStates s"
  by (simp add: get_oauth_callback_def oauth_callback_keeps_states exposeAuthInfo_session)

lemma get_oauth_callback_consumes_next:
  "fst (get_oauth_callback bi prov qs qc ex now newId st s) = Redirect target \<Longrightarrow>
     storedOauthNext (snd (snd (get_oauth_callback bi prov qs qc ex now newId st s))) prov = None"
  unfolding get_oauth_callback_def by (rule oauth_callback_consumes_next)

text \<open>
  Claim C3, as amended. Of the two transient values only the redirect target is
  single-use. Once a callback for a provider completes successfully (it answers with
  a redirect), the session's \<open>next\<close> entry for that provider has been deleted, so
  consuming it again yields \<open>/\<close>. The \<open>state\<close> entry is not deleted: it is the token
  the callback presented, it is still stored afterwards, the state check still accepts
  it, and a second callback presenting the same value is not rejected as a bad state.
\<close>

theorem oauth_next_single_use_state_kept:
  assumes ok: "fst (get_oauth_callback bi prov qs qc ex now newId st s) = Redirect target"
  shows "storedOauthNext (snd (snd (get_oauth_callback bi prov qs qc ex now newId st s))) prov = None
     \<and> fst (consumeOauthNext (snd (snd (get_oauth_callback bi prov qs qc ex now newId st s))) prov) = ''/''
     \<and> storedOauthState (snd (snd (get_oauth_callback bi prov qs qc ex now newId st s))) prov
         = storedOauthState s prov
     \<and> storedOauthState s prov = qs
     \<and> truthy qs
     \<and> checkOauthState (snd (snd (get_oauth_callback bi prov qs qc ex now newId st s))) prov qs
     \<and> fst (get_oauth_callback bi prov qs qc2 ex2 now2 newId2 st2
               (snd (snd (get_oauth_callback bi prov qs qc ex now newId st s)))) \<noteq> Error BadState"
proof -
  let ?s' = "snd (snd (get_oauth_callback bi prov qs qc ex now newId st s))"
  have c: "checkOauthState s prov qs" using ok by (simp add: get_oauth_callback_redirect)
  have st: "oauthStates ?s' = oauthStates s" by (rule get_oauth_callback_keeps_states)
  have 1: "storedOauthNext ?s' prov = None" using ok by (rule get_oauth_callback_consumes_next)
  have 2: "fst (consumeOauthNext ?s' prov) = ''/''"
    by (simp add: consumeOauthNext_session 1 sanitizeNextUrl_def js_or_def js_or_else_def
        truthy_def startsWith_def)
  have 3: "storedOauthState ?s' prov = storedOauthState s prov"
    by (rule storedOauthState_cong [OF st])
  have 4: "storedOauthState s prov = qs \<and> truthy qs"
    using c by (simp add: checkOauthState_def Let_def)
  have 5: "checkOauthState ?s' prov qs" using c by (simp add: checkOauthState_cong [OF st])
  have 6: "fst (get_oauth_callback bi prov qs qc2 ex2 now2 newId2 st2 ?s') \<noteq> Error BadState"
    using 5 by (simp add: get_oauth_callback_badstate)
  show ?thesis using 1 2 3 4 5 6 by blast
qed

theorem oauth_next_single_use_state_kept_witness:
  "fst cb_first = Redirect ''/library''
   \<and> storedOauthNext cb_session ''google'' = Some ''/library''
   \<and> storedOauthNext (snd (snd cb_first)) ''google'' = None
   \<and> fst (consumeOauthNext (snd (snd cb_first)) ''google'') = ''/''
   \<and> storedOauthState (snd (snd cb_first)) ''google'' = storedOauthState cb_session ''google''
   \<and> checkOauthState (snd (snd cb_first)) ''google'' (Some ''tok123'')
   \<and> fst cb_second \<noteq> Error BadState"
proof -
  have c: "checkOauthState cb_session ''google'' (Some ''tok123'')"
    by (simp add: checkOauthState_def storedOauthState_def cb_session_def setOauthNext_def
        setOauthState_def session_of_def truthy_def)
  have n: "sanitizeNextUrl (js_or (storedOauthNext cb_session ''google'') (Some ''/'')) = ''/library''"
    by (simp add: sanitizeNextUrl_def storedOauthNext_def cb_session_def setOauthNext_def
        setOauthState_def session_of_def js_or_def js_or_else_def truthy_def startsWith_def)
  have n0: "storedOauthNext cb_session ''google'' = Some ''/library''"
    by (simp add: storedOauthNext_def cb_session_def setOauthNext_def setOauthState_def
        session_of_def sanitizeNextUrl_def js_or_def js_or_else_def truthy_def startsWith_def)
  have ok: "fst (get_oauth_callback ascii_builtins ''google'' (Some ''tok123'') (Some ''code1'') (Inr cb_profile)
                ''2024-03-03'' ''u_new1'' demo_state cb_session) = Redirect ''/library''"
    unfolding get_oauth_callback_redirect using c n by (simp add: truthy_def)
  show ?thesis
    using oauth_next_single_use_state_kept [OF ok, of "Some ''code2''" "Inr cb_profile"
              "''2024-03-04''" "''u_new2''" "fst (snd cb_first)"] ok n0
    unfolding cb_second_def cb_first_def by blast
qed

text \<open>
  Claim C3 as stated fails: after a successful Google callback the stored state token
  is still in the session, and a second callback presenting the same token is answered
  with a redirect, not with the bad-state error.
\<close>

theorem oauth_state_single_use_counterexample:
  "fst cb_first = Redirect ''/library''
   \<and> storedOauthNext (snd (snd cb_first)) ''google'' = None
   \<and> storedOauthState (snd (snd cb_first)) ''google'' = Some ''tok123''
   \<and> fst cb_second = Redirect ''/''"
proof -
  have c: "checkOauthState cb_session ''google'' (Some ''tok123'')"
    by (simp add: checkOauthState_def storedOauthState_def cb_session_def setOauthNext_def
        setOauthState_def session_of_def truthy_def)
  have n: "sanitizeNextUrl (js_or (storedOauthNext cb_session ''google'') (Some ''/'')) = ''/library''"
    by (simp add: sanitizeNextUrl_def storedOauthNext_def cb_session_def setOauthNext_def
        setOauthState_def session_of_def js_or_def js_or_else_def truthy_def startsWith_def)
  have 1: "fst cb_first = Redirect ''/library''"
    unfolding cb_first_def get_oauth_callback_redirect using c n by (simp add: truthy_def)
  have 2: "storedOauthNext (snd (snd cb_first)) ''google'' = None"
    using 1 unfolding cb_first_def by (rule get_oauth_callback_consumes_next)
  have st: "oauthStates (snd (snd cb_first)) = oauthStates cb_session"
    unfolding cb_first_def by (rule get_oauth_callback_keeps_states)
  have 3: "storedOauthState (snd (snd cb_first)) ''google'' = Some ''tok123''"
    by (simp add: storedOauthState_def st)
       (simp add: cb_session_def setOauthNext_def setOauthState_def session_of_def)
  have c2: "checkOauthState (snd (snd cb_first)) ''google'' (Some ''tok123'')"
    using c by (simp add: checkOauthState_cong [OF st])
  have n2: "sanitizeNextUrl (js_or (storedOauthNext (snd (snd cb_first)) ''google'') (Some ''/'')) = ''/''"
    by (simp add: 2 sanitizeNextUrl_def js_or_def js_or_else_def truthy_def startsWith_def)
  have 4: "fst cb_second = Redirect ''/''"
    unfolding cb_second_def get_oauth_callback_redirect using c2 n2 by (simp add: truthy_def)
  show ?thesis using 1 2 3 4 by blast
qed
section \<open>Properties of OAuth identity linking\<close>

lemma truthy_normalizeEmail:
  "builtins_sane bi \<Longrightarrow> normalizeEmail bi em \<noteq> [] \<Longrightarrow> truthy em"
  using normalizeEmail_falsy by blast

lemma same_email_norm:
  "builtins_sane bi \<Longrightarrow> same_email bi (Some (normalizeEmail bi em)) = same_email bi em"
  by (simp add: same_email_def fun_eq_iff normalizeEmail_idem)

lemma same_email_fun: "(\<lambda>u. normalizeEmail bi (email u) = normalizeEmail bi em) = same_email bi em"
  by (simp add: fun_eq_iff same_email_def)

lemma findUserByEmailAnyProvider_norm:
  "builtins_sane bi \<Longrightarrow> normalizeEmail bi em \<noteq> [] \<Longrightarrow>
   findUserByEmailAnyProvider bi st (Some (normalizeEmail bi em)) = find (same_email bi em) (USERS st)"
  by (simp add: findUserByEmailAnyProvider_def Let_def normalizeEmail_idem same_email_fun)

lemma upsert_existing:
  "find (oauth_match prov (js_String provId)) (USERS st) = Some e \<Longrightarrow>
   upsertOauthUser bi prov provId em dn av now newId st
     = (refresh_existing prov (js_String provId) em dn av now e,
        st\<lparr>USERS := replace_first (oauth_match prov (js_String provId))
              (refresh_existing prov (js_String provId) em dn av now e) (USERS st)\<rparr>)"
  by (simp add: upsertOauthUser_def Let_def)

lemma upsert_link:
  "builtins_sane bi \<Longrightarrow> find (oauth_match prov (js_String provId)) (USERS st) = None \<Longrightarrow>
   normalizeEmail bi em \<noteq> [] \<Longrightarrow>
   find (same_email bi em) (USERS st) = Some b \<Longrightarrow>
   upsertOauthUser bi prov provId em dn av now newId st
     = (link_byEmail prov (js_String provId) em dn av now b,
        st\<lparr>USERS := replace_first (same_email bi em)
              (link_byEmail prov (js_String provId) em dn av now b) (USERS st),
           USER_LIKES := (USER_LIKES st)(user_id b \<mapsto> getUserLikes st (user_id b))\<rparr>)"
  by (simp add: upsertOauthUser_def Let_def findUserByEmailAnyProvider_norm same_email_norm)

lemma upsert_create:
  "builtins_sane bi \<Longrightarrow> find (oauth_match prov (js_String provId)) (USERS st) = None \<Longrightarrow>
   normalizeEmail bi em = [] \<or> find (same_email bi em) (USERS st) = None \<Longrightarrow>
   upsertOauthUser bi prov provId em dn av now newId st
     = (new_oauth_user prov (js_String provId) em dn av now newId,
        st\<lparr>USERS := USERS st @ [new_oauth_user prov (js_String provId) em dn av now newId],
           USER_LIKES := (USER_LIKES st)(newId \<mapsto> getUserLikes st newId)\<rparr>)"
  by (auto simp: upsertOauthUser_def Let_def findUserByEmailAnyProvider_norm)

lemma map_of_update_same: "map_of (AList.update k v al) k = Some v"
  by (simp add: update_conv')

lemma refresh_existing_fields:
  "user_id (refresh_existing prov pid em dn av now e) = user_id e"
  "role (refresh_existing prov pid em dn av now e) = role e"
  "provider (refresh_existing prov pid em dn av now e) = provider e"
  "providerId (refresh_existing prov pid em dn av now e) = providerId e"
  "artistId (refresh_existing prov pid em dn av now e) = artistId e"
  "passwordHash (refresh_existing prov pid em dn av now e) = passwordHash e"
  "createdAt (refresh_existing prov pid em dn av now e) = createdAt e"
  "email (refresh_existing prov pid em dn av now e) = (if truthy em then em else email e)"
  "displayName (refresh_existing prov pid em dn av now e) = (if truthy dn then dn else displayName e)"
  "avatar (refresh_existing prov pid em dn av now e) = (if truthy av then av else avatar e)"
  by (simp_all add: refresh_existing_def Let_def js_or_def)

lemma refresh_existing_link:
  "\<exists>l. oauthLink (refresh_existing prov pid em dn av now e) prov = Some l
       \<and> link_providerId l = pid
       \<and> link_email l = (if truthy em then em
                          else (case oauthLink e prov of None \<Rightarrow> None | Some l0 \<Rightarrow> link_email l0))
       \<and> link_avatar l = (if truthy av then av
                           else (case oauthLink e prov of None \<Rightarrow> None | Some l0 \<Rightarrow> link_avatar l0))
       \<and> lastLoginAt l = Some now
       \<and> linkedAt l = (case oauthLink e prov of None \<Rightarrow> Some now
                        | Some l0 \<Rightarrow> if truthy (linkedAt l0) then linkedAt l0 else Some now)"
  by (cases "oauthLinks e")
     (auto simp: refresh_existing_def oauthLink_def Let_def js_or_def map_of_update_same truthy_def
        split: option.splits)

lemma refresh_existing_other_links:
  "q \<noteq> prov \<Longrightarrow> oauthLink (refresh_existing prov pid em dn av now e) q = oauthLink e q"
  by (simp add: refresh_existing_def oauthLink_def Let_def update_conv' split: option.splits)

lemma link_byEmail_fields:
  "user_id (link_byEmail prov pid em dn av now b) = user_id b"
  "role (link_byEmail prov pid em dn av now b) = role b"
  "provider (link_byEmail prov pid em dn av now b) = provider b"
  "providerId (link_byEmail prov pid em dn av now b) = providerId b"
  "artistId (link_byEmail prov pid em dn av now b) = artistId b"
  "passwordHash (link_byEmail prov pid em dn av now b) = passwordHash b"
  "createdAt (link_byEmail prov pid em dn av now b) = createdAt b"
  "email (link_byEmail prov pid em dn av now b)
     = (if truthy (email b) then email b else if truthy em then em else None)"
  "displayName (link_byEmail prov pid em dn av now b)
     = (if truthy (displayName b) then displayName b else if truthy dn then dn else displayName b)"
  "avatar (link_byEmail prov pid em dn av now b)
     = (if truthy (avatar b) then avatar b else if truthy av then av else avatar b)"
  by (simp_all add: link_byEmail_def Let_def js_or_def)

lemma link_byEmail_link:
  "oauthLink (link_byEmail prov pid em dn av now b) prov
     = Some \<lparr>link_providerId = pid,
             link_email = (if truthy em then em else if truthy (email b) then email b else None),
             link_avatar = (if truthy av then av else if truthy (avatar b) then avatar b else None),
             linkedAt = Some now, lastLoginAt = Some now\<rparr>"
  by (simp add: link_byEmail_def oauthLink_def Let_def js_or_def map_of_update_same)

lemma link_byEmail_other_links:
  "q \<noteq> prov \<Longrightarrow> oauthLink (link_byEmail prov pid em dn av now b) q = oauthLink b q"
  by (simp add: link_byEmail_def oauthLink_def Let_def update_conv' split: option.splits)

lemma link_identity_iff:
  "(prov, pid) \<in> set (map (\<lambda>(p, l). (p, link_providerId l)) (AList.clearjunk ls))
     \<longleftrightarrow> (\<exists>l. map_of ls prov = Some l \<and> link_providerId l = pid)"
proof -
  have d: "distinct (map fst (AList.clearjunk ls))" by (rule distinct_clearjunk)
  have "(\<exists>l. map_of ls prov = Some l \<and> link_providerId l = pid)
          \<longleftrightarrow> (\<exists>l. map_of (AList.clearjunk ls) prov = Some l \<and> link_providerId l = pid)"
    by (simp add: map_of_clearjunk)
  also have "\<dots> \<longleftrightarrow> (\<exists>l. (prov, l) \<in> set (AList.clearjunk ls) \<and> link_providerId l = pid)"
    using d by (simp add: map_of_eq_Some_iff)
  also have "\<dots> \<longleftrightarrow> (prov, pid) \<in> set (map (\<lambda>(p, l). (p, link_providerId l)) (AList.clearjunk ls))"
    by force
  finally show ?thesis by simp
qed

text \<open>
  A user matched by \<open>oauth_match\<close> owns the pair as an identity, unless it was matched
  through an absent provider id rendered as the text \<open>undefined\<close>.
\<close>

lemma oauth_match_identity:
  "pid \<noteq> ''undefined'' \<Longrightarrow> oauth_match prov pid u \<longleftrightarrow> (prov, pid) \<in> set (identities u)"
  unfolding oauth_match_def identities_def oauthLink_def
  by (cases "providerId u"; cases "oauthLinks u")
     (auto simp: js_or_else_def js_String_def link_identity_iff simp del: set_map split: option.splits)

lemma unique_identities_filter:
  "unique_identities us \<Longrightarrow> pid \<noteq> ''undefined'' \<Longrightarrow>
     length (filter (oauth_match prov pid) us) \<le> 1"
proof (induction us)
  case Nil
  then show ?case by simp
next
  case (Cons u us)
  show ?case
  proof (cases "oauth_match prov pid u")
    case True
    then have own: "(prov, pid) \<in> set (identities u)"
      using Cons.prems(2) by (simp add: oauth_match_identity)
    have "\<not> oauth_match prov pid v" if "v \<in> set us" for v
    proof
      assume "oauth_match prov pid v"
      then have "(prov, pid) \<in> set (identities v)"
        using Cons.prems(2) by (simp add: oauth_match_identity)
      moreover have "set (identities u) \<inter> set (identities v) = {}"
        using Cons.prems(1) that by simp
      ultimately show False using own by blast
    qed
    then have "filter (oauth_match prov pid) us = []" by (simp add: filter_empty_conv)
    with True show ?thesis by simp
  next
    case False
    then show ?thesis using Cons by simp
  qed
qed

lemma find_filter_single:
  "find P xs = Some x \<Longrightarrow> length (filter P xs) \<le> 1 \<Longrightarrow> filter P xs = [x]"
proof (induction xs)
  case Nil
  then show ?case by simp
next
  case (Cons y ys)
  then show ?case by (cases "P y") (auto split: if_splits)
qed

lemma same_email_truthy:
  "builtins_sane bi \<Longrightarrow> same_email bi em b \<Longrightarrow> normalizeEmail bi em \<noteq> [] \<Longrightarrow> truthy (email b)"
  by (simp add: same_email_def truthy_normalizeEmail)

text \<open>
  Claim C1, as amended. \<open>upsertOauthUser\<close> resolves the returned user \<open>u\<close> in this
  order. (a) If some existing user matches on the primary (provider, providerId) or on
  \<open>oauthLinks[provider].providerId\<close>, it is that user \<open>e\<close>: the only one that matches
  when the identities are unique and a provider id was given, the first one in any
  case. Its top-level \<open>email\<close>, \<open>displayName\<close> and \<open>avatar\<close> each take the incoming value
  when that value is non-empty, whatever they held before, and are kept when the
  incoming value is empty or absent.
  Its link for the provider carries the provider id and the login time, takes the
  incoming e-mail and avatar when non-empty and keeps its own otherwise, and keeps
  \<open>linkedAt\<close> when set. (b) Otherwise, if the e-mail is non-empty after normalisation,
  and some user has the same normalised e-mail, it is the first such user \<open>b\<close>; its
  top-level fields are filled only where they were empty, and it gets a new link for
  the provider with the incoming id and e-mail. (c) Otherwise it is a newly created
  user with role \<open>user\<close>, appended to the collection. Identifier, role, provider and
  providerId of an existing user never change. Of \<open>trim\<close> and \<open>toLowerCase\<close> only
  the two facts of \<open>builtins_sane\<close> are used.
\<close>

theorem upsert_resolution:
  fixes bi prov provId em dn av now newId st
  assumes sane: "builtins_sane bi"
  defines "pid \<equiv> js_String provId"
    and "u \<equiv> fst (upsertOauthUser bi prov provId em dn av now newId st)"
    and "us' \<equiv> USERS (snd (upsertOauthUser bi prov provId em dn av now newId st))"
  shows
  "(find (oauth_match prov pid) (USERS st) = Some e \<longrightarrow>
      user_id u = user_id e \<and> role u = role e \<and> provider u = provider e
      \<and> providerId u = providerId e
      \<and> email u = (if truthy em then em else email e)
      \<and> displayName u = (if truthy dn then dn else displayName e)
      \<and> avatar u = (if truthy av then av else avatar e)
      \<and> (\<exists>l. oauthLink u prov = Some l
             \<and> link_providerId l = pid
             \<and> link_email l = (if truthy em then em
                  else (case oauthLink e prov of None \<Rightarrow> None | Some l0 \<Rightarrow> link_email l0))
             \<and> link_avatar l = (if truthy av then av
                  else (case oauthLink e prov of None \<Rightarrow> None | Some l0 \<Rightarrow> link_avatar l0))
             \<and> lastLoginAt l = Some now
             \<and> linkedAt l = (case oauthLink e prov of None \<Rightarrow> Some now
                  | Some l0 \<Rightarrow> if truthy (linkedAt l0) then linkedAt l0 else Some now))
      \<and> us' = replace_first (oauth_match prov pid) u (USERS st)
      \<and> (unique_identities (USERS st) \<and> pid \<noteq> ''undefined''
            \<longrightarrow> filter (oauth_match prov pid) (USERS st) = [e]))
   \<and> (find (oauth_match prov pid) (USERS st) = None \<and> normalizeEmail bi em \<noteq> []
        \<and> find (same_email bi em) (USERS st) = Some b \<longrightarrow>
      user_id u = user_id b \<and> role u = role b \<and> provider u = provider b
      \<and> providerId u = providerId b
      \<and> email u = email b
      \<and> displayName u = (if truthy (displayName b) then displayName b
                          else if truthy dn then dn else displayName b)
      \<and> avatar u = (if truthy (avatar b) then avatar b
                     else if truthy av then av else avatar b)
      \<and> oauthLink u prov
           = Some \<lparr>link_providerId = pid, link_email = em,
                   link_avatar = (if truthy av then av
                                  else if truthy (avatar b) then avatar b else None),
                   linkedAt = Some now, lastLoginAt = Some now\<rparr>
      \<and> us' = replace_first (same_email bi em) u (USERS st))
   \<and> (find (oauth_match prov pid) (USERS st) = None
        \<and> (normalizeEmail bi em = [] \<or> find (same_email bi em) (USERS st) = None) \<longrightarrow>
      u = new_oauth_user prov pid em dn av now newId
      \<and> user_id u = newId \<and> role u = ''user'' \<and> provider u = prov
      \<and> providerId u = Some (JStr pid)
      \<and> us' = USERS st @ [u])"
proof (intro conjI impI)
  assume f: "find (oauth_match prov pid) (USERS st) = Some e"
  have r: "upsertOauthUser bi prov provId em dn av now newId st
     = (refresh_existing prov pid em dn av now e,
        st\<lparr>USERS := replace_first (oauth_match prov pid)
              (refresh_existing prov pid em dn av now e) (USERS st)\<rparr>)"
    using f unfolding pid_def by (rule upsert_existing)
  have ue: "u = refresh_existing prov pid em dn av now e" by (simp add: u_def r)
  show "user_id u = user_id e" "role u = role e" "provider u = provider e"
    "providerId u = providerId e"
    "email u = (if truthy em then em else email e)"
    "displayName u = (if truthy dn then dn else displayName e)"
    "avatar u = (if truthy av then av else avatar e)"
    by (simp_all only: ue refresh_existing_fields)
  show "\<exists>l. oauthLink u prov = Some l
             \<and> link_providerId l = pid
             \<and> link_email l = (if truthy em then em
                  else (case oauthLink e prov of None \<Rightarrow> None | Some l0 \<Rightarrow> link_email l0))
             \<and> link_avatar l = (if truthy av then av
                  else (case oauthLink e prov of None \<Rightarrow> None | Some l0 \<Rightarrow> link_avatar l0))
             \<and> lastLoginAt l = Some now
             \<and> linkedAt l = (case oauthLink e prov of None \<Rightarrow> Some now
                  | Some l0 \<Rightarrow> if truthy (linkedAt l0) then linkedAt l0 else Some now)"
    unfolding ue by (rule refresh_existing_link)
  show "us' = replace_first (oauth_match prov pid) u (USERS st)"
    by (simp add: us'_def ue r)
  assume "unique_identities (USERS st) \<and> pid \<noteq> ''undefined''"
  then have "length (filter (oauth_match prov pid) (USERS st)) \<le> 1"
    using unique_identities_filter [of "USERS st" pid prov] by blast
  with f show "filter (oauth_match prov pid) (USERS st) = [e]"
    by (rule find_filter_single)
next
  assume a: "find (oauth_match prov pid) (USERS st) = None \<and> normalizeEmail bi em \<noteq> []
        \<and> find (same_email bi em) (USERS st) = Some b"
  then have f: "find (oauth_match prov (js_String provId)) (USERS st) = None"
    and n: "normalizeEmail bi em \<noteq> []"
    and g: "find (same_email bi em) (USERS st) = Some b"
    unfolding pid_def by blast+
  have r: "upsertOauthUser bi prov provId em dn av now newId st
     = (link_byEmail prov pid em dn av now b,
        st\<lparr>USERS := replace_first (same_email bi em)
              (link_byEmail prov pid em dn av now b) (USERS st),
           USER_LIKES := (USER_LIKES st)(user_id b \<mapsto> getUserLikes st (user_id b))\<rparr>)"
    unfolding pid_def by (rule upsert_link [OF sane f n g])
  have ub: "u = link_byEmail prov pid em dn av now b" by (simp add: u_def r)
  have "same_email bi em b" using g by (auto simp: find_Some_iff)
  then have tb: "truthy (email b)" using n by (rule same_email_truthy [OF sane])
  have te: "truthy em" using n by (rule truthy_normalizeEmail [OF sane])
  show "user_id u = user_id b" "role u = role b" "provider u = provider b"
    "providerId u = providerId b"
    "displayName u = (if truthy (displayName b) then displayName b
                          else if truthy dn then dn else displayName b)"
    "avatar u = (if truthy (avatar b) then avatar b
                     else if truthy av then av else avatar b)"
    by (simp_all only: ub link_byEmail_fields)
  show "email u = email b" by (simp add: ub link_byEmail_fields tb)
  show "oauthLink u prov
           = Some \<lparr>link_providerId = pid, link_email = em,
                   link_avatar = (if truthy av then av
                                  else if truthy (avatar b) then avatar b else None),
                   linkedAt = Some now, lastLoginAt = Some now\<rparr>"
    by (simp add: ub link_byEmail_link te)
  show "us' = replace_first (same_email bi em) u (USERS st)"
    by (simp add: us'_def ub r)
next
  assume a: "find (oauth_match prov pid) (USERS st) = None
        \<and> (normalizeEmail bi em = [] \<or> find (same_email bi em) (USERS st) = None)"
  from a have f: "find (oauth_match prov (js_String provId)) (USERS st) = None"
    unfolding pid_def by (rule conjunct1)
  from a have n: "normalizeEmail bi em = [] \<or> find (same_email bi em) (USERS st) = None"
    by (rule conjunct2)
  have r: "upsertOauthUser bi prov provId em dn av now newId st
     = (new_oauth_user prov pid em dn av now newId,
        st\<lparr>USERS := USERS st @ [new_oauth_user prov pid em dn av now newId],
           USER_LIKES := (USER_LIKES st)(newId \<mapsto> getUserLikes st newId)\<rparr>)"
    unfolding pid_def by (rule upsert_create [OF sane f n])
  show uc: "u = new_oauth_user prov pid em dn av now newId" by (simp add: u_def r)
  show "user_id u = newId" "role u = ''user''" "provider u = prov" "providerId u = Some (JStr pid)"
    by (simp_all add: uc new_oauth_user_def)
  show "us' = USERS st @ [u]" by (simp add: us'_def uc r)
qed

theorem upsert_resolution_witness:
  "builtins_sane ascii_builtins
   \<and> find (oauth_match ''google'' (js_String (Some (JStr ''g-7'')))) (USERS cx_state) = Some (USERS cx_state ! 0)
   \<and> unique_identities (USERS cx_state) \<and> js_String (Some (JStr ''g-7'')) \<noteq> ''undefined''
   \<and> filter (oauth_match ''google'' (js_String (Some (JStr ''g-7'')))) (USERS cx_state) = [USERS cx_state ! 0]
   \<and> email (fst (upsertOauthUser ascii_builtins ''google'' (Some (JStr ''g-7'')) (Some ''ann@new.example'') None None
                ''2024-02-01'' ''u_n'' cx_state)) = Some ''ann@new.example''
   \<and> displayName (fst (upsertOauthUser ascii_builtins ''google'' (Some (JStr ''g-7'')) (Some ''ann@new.example'') None None
                ''2024-02-01'' ''u_n'' cx_state)) = Some ''Ann''
   \<and> find (oauth_match ''yandex'' (js_String (Some (JStr ''y-1'')))) (USERS cx_state) = None
   \<and> normalizeEmail ascii_builtins (Some '' ANN@x.com'') \<noteq> []
   \<and> find (same_email ascii_builtins (Some '' ANN@x.com'')) (USERS cx_state) = Some (USERS cx_state ! 0)
   \<and> user_id (fst (upsertOauthUser ascii_builtins ''yandex'' (Some (JStr ''y-1'')) (Some '' ANN@x.com'') (Some ''A. N.'')
                None ''2024-02-01'' ''u_n'' cx_state)) = ''u_g''
   \<and> email (fst (upsertOauthUser ascii_builtins ''yandex'' (Some (JStr ''y-1'')) (Some '' ANN@x.com'') (Some ''A. N.'')
                None ''2024-02-01'' ''u_n'' cx_state)) = Some ''ann@x.com''
   \<and> find (same_email ascii_builtins (Some ''bob@x.com'')) (USERS cx_state) = None
   \<and> user_id (fst (upsertOauthUser ascii_builtins ''yandex'' (Some (JStr ''y-1'')) (Some ''bob@x.com'') None
                None ''2024-02-01'' ''u_n'' cx_state)) = ''u_n''
   \<and> role (fst (upsertOauthUser ascii_builtins ''yandex'' (Some (JStr ''y-1'')) (Some ''bob@x.com'') None
                None ''2024-02-01'' ''u_n'' cx_state)) = ''user''"
proof -
  have fa: "find (oauth_match ''google'' (js_String (Some (JStr ''g-7'')))) (USERS cx_state)
              = Some (USERS cx_state ! 0)" by code_simp
  have ui: "unique_identities (USERS cx_state)" by code_simp
  have nu: "js_String (Some (JStr ''g-7'')) \<noteq> ''undefined''" by code_simp
  have fy: "find (oauth_match ''yandex'' (js_String (Some (JStr ''y-1'')))) (USERS cx_state) = None"
    by code_simp
  have ne: "normalizeEmail ascii_builtins (Some '' ANN@x.com'') \<noteq> []" by code_simp
  have fe: "find (same_email ascii_builtins (Some '' ANN@x.com'')) (USERS cx_state) = Some (USERS cx_state ! 0)"
    by code_simp
  have fb: "find (same_email ascii_builtins (Some ''bob@x.com'')) (USERS cx_state) = None" by code_simp
  have v0: "user_id (USERS cx_state ! 0) = ''u_g''" "email (USERS cx_state ! 0) = Some ''ann@x.com''"
    "displayName (USERS cx_state ! 0) = Some ''Ann''"
    by code_simp+
  have t: "truthy (Some ''ann@new.example'')" "\<not> truthy None" by (simp_all add: truthy_def)
  note A = upsert_resolution [OF ascii_builtins_sane, where prov = "''google''" and provId = "Some (JStr ''g-7'')"
      and em = "Some ''ann@new.example''" and dn = None and av = None and now = "''2024-02-01''"
      and newId = "''u_n''" and st = cx_state and e = "USERS cx_state ! 0"
      and b = "USERS cx_state ! 0"]
  note B = upsert_resolution [OF ascii_builtins_sane, where prov = "''yandex''" and provId = "Some (JStr ''y-1'')"
      and em = "Some '' ANN@x.com''" and dn = "Some ''A. N.''" and av = None
      and now = "''2024-02-01''" and newId = "''u_n''" and st = cx_state
      and e = "USERS cx_state ! 0" and b = "USERS cx_state ! 0"]
  note C = upsert_resolution [OF ascii_builtins_sane, where prov = "''yandex''" and provId = "Some (JStr ''y-1'')"
      and em = "Some ''bob@x.com''" and dn = None and av = None
      and now = "''2024-02-01''" and newId = "''u_n''" and st = cx_state
      and e = "USERS cx_state ! 0" and b = "USERS cx_state ! 0"]
  have a1: "filter (oauth_match ''google'' (js_String (Some (JStr ''g-7'')))) (USERS cx_state)
              = [USERS cx_state ! 0]"
    using A fa ui nu by blast
  have a2: "email (fst (upsertOauthUser ascii_builtins ''google'' (Some (JStr ''g-7'')) (Some ''ann@new.example'') None None
                ''2024-02-01'' ''u_n'' cx_state))
              = (if truthy (Some ''ann@new.example'') then Some ''ann@new.example''
                 else email (USERS cx_state ! 0))"
    using A fa by blast
  have a3: "displayName (fst (upsertOauthUser ascii_builtins ''google'' (Some (JStr ''g-7'')) (Some ''ann@new.example'') None None
                ''2024-02-01'' ''u_n'' cx_state))
              = (if truthy None then None else displayName (USERS cx_state ! 0))"
    using A fa by blast
  have b1: "user_id (fst (upsertOauthUser ascii_builtins ''yandex'' (Some (JStr ''y-1'')) (Some '' ANN@x.com'') (Some ''A. N.'')
                None ''2024-02-01'' ''u_n'' cx_state)) = user_id (USERS cx_state ! 0)"
    using B fy ne fe by blast
  have b2: "email (fst (upsertOauthUser ascii_builtins ''yandex'' (Some (JStr ''y-1'')) (Some '' ANN@x.com'') (Some ''A. N.'')
                None ''2024-02-01'' ''u_n'' cx_state)) = email (USERS cx_state ! 0)"
    using B fy ne fe by blast
  have c1: "user_id (fst (upsertOauthUser ascii_builtins ''yandex'' (Some (JStr ''y-1'')) (Some ''bob@x.com'') None
                None ''2024-02-01'' ''u_n'' cx_state)) = ''u_n''"
    using C fy fb by blast
  have c2: "role (fst (upsertOauthUser ascii_builtins ''yandex'' (Some (JStr ''y-1'')) (Some ''bob@x.com'') None
                None ''2024-02-01'' ''u_n'' cx_state)) = ''user''"
    using C fy fb by blast
  show ?thesis
    using ascii_builtins_sane fa ui nu a1 a2 [unfolded if_P [OF t(1)]] a3 [unfolded if_not_P [OF t(2)] v0]
      fy ne fe b1 [unfolded v0] b2 [unfolded v0] fb c1 c2
    by blast
qed

text \<open>
  Claim C1 as stated fails at four inputs. On the direct-match path an absent incoming
  e-mail and avatar do not overwrite the stored ones, and the link for the provider
  keeps its e-mail and its \<open>linkedAt\<close>, only \<open>lastLoginAt\<close> taking the new time. A
  non-empty e-mail made of white space does not select the existing user with the same
  (empty) normalised e-mail: a new user is created. And the matching user need not be
  unique: when users.json holds two records reachable under the same pair, both match
  and the first one is returned.
\<close>

theorem upsert_resolution_counterexample:
  "find (oauth_match ''google'' ''g-7'') (USERS cx_state) = Some (USERS cx_state ! 0)
   \<and> email (USERS cx_state ! 0) = Some ''ann@x.com''
   \<and> avatar (USERS cx_state ! 0) = Some ''https://img.example/a.png''
   \<and> email (fst (upsertOauthUser ascii_builtins ''google'' (Some (JStr ''g-7'')) None (Some ''Ann B'') None
                ''2024-02-01'' ''u_n'' cx_state)) = Some ''ann@x.com''
   \<and> avatar (fst (upsertOauthUser ascii_builtins ''google'' (Some (JStr ''g-7'')) None (Some ''Ann B'') None
                ''2024-02-01'' ''u_n'' cx_state)) = Some ''https://img.example/a.png''
   \<and> oauthLink (fst (upsertOauthUser ascii_builtins ''google'' (Some (JStr ''g-7'')) None (Some ''Ann B'') None
                ''2024-02-01'' ''u_n'' cx_state)) ''google''
         = Some \<lparr>link_providerId = ''g-7'', link_email = Some ''ann@x.com'',
                 link_avatar = Some ''https://img.example/a.png'',
                 linkedAt = Some ''2024-01-01'', lastLoginAt = Some ''2024-02-01''\<rparr>
   \<and> find (oauth_match ''google'' ''g-8'') (USERS cx_state) = None
   \<and> find (same_email ascii_builtins (Some '' '')) (USERS cx_state) = Some (USERS cx_state ! 1)
   \<and> user_id (USERS cx_state ! 1) = ''u_vk''
   \<and> user_id (fst (upsertOauthUser ascii_builtins ''google'' (Some (JStr ''g-8'')) (Some '' '') (Some ''Eve'') None
                ''2024-02-01'' ''u_n'' cx_state)) = ''u_n''
   \<and> length (USERS (snd (upsertOauthUser ascii_builtins ''google'' (Some (JStr ''g-8'')) (Some '' '') (Some ''Eve'') None
                ''2024-02-01'' ''u_n'' cx_state))) = 3
   \<and> filter (oauth_match ''google'' ''g-1'') (USERS twin_state) = [twin_first, twin_second]
   \<and> user_id (fst (upsertOauthUser ascii_builtins ''google'' (Some (JStr ''g-1'')) None None None
                ''2024-02-01'' ''u_n'' twin_state)) = user_id twin_first
   \<and> user_id twin_first \<noteq> user_id twin_second"
  by code_simp
section \<open>The uniqueness invariant on users: what is kept and what is not\<close>

lemma unique_identities_nth:
  "unique_identities us \<longleftrightarrow>
     (\<forall>i j. i < j \<and> j < length us \<longrightarrow> set (identities (us ! i)) \<inter> set (identities (us ! j)) = {})"
proof (induction us)
  case Nil
  then show ?case by simp
next
  case (Cons u us)
  have "(\<forall>i j. i < j \<and> j < length (u # us)
            \<longrightarrow> set (identities ((u # us) ! i)) \<inter> set (identities ((u # us) ! j)) = {})
        \<longleftrightarrow> (\<forall>j. j < length us \<longrightarrow> set (identities u) \<inter> set (identities (us ! j)) = {})
            \<and> (\<forall>i j. i < j \<and> j < length us
                  \<longrightarrow> set (identities (us ! i)) \<inter> set (identities (us ! j)) = {})"
    (is "?L \<longleftrightarrow> ?A \<and> ?B")
  proof
    assume L: ?L
    have ?A
    proof (intro allI impI)
      fix j assume "j < length us"
      then show "set (identities u) \<inter> set (identities (us ! j)) = {}"
        using L [rule_format, of 0 "Suc j"] by simp
    qed
    moreover have ?B
    proof (intro allI impI)
      fix i j assume "i < j \<and> j < length us"
      then show "set (identities (us ! i)) \<inter> set (identities (us ! j)) = {}"
        using L [rule_format, of "Suc i" "Suc j"] by simp
    qed
    ultimately show "?A \<and> ?B" ..
  next
    assume AB: "?A \<and> ?B"
    show ?L
    proof (intro allI impI)
      fix i j assume ij: "i < j \<and> j < length (u # us)"
      then obtain j' where j': "j = Suc j'" by (cases j) auto
      show "set (identities ((u # us) ! i)) \<inter> set (identities ((u # us) ! j)) = {}"
      proof (cases i)
        case 0
        then show ?thesis using AB ij j' by simp
      next
        case (Suc i')
        then show ?thesis using AB ij j' by simp
      qed
    qed
  qed
  moreover have "(\<forall>v \<in> set us. set (identities u) \<inter> set (identities v) = {})
                  \<longleftrightarrow> (\<forall>j. j < length us \<longrightarrow> set (identities u) \<inter> set (identities (us ! j)) = {})"
    by (simp add: all_set_conv_all_nth)
  ultimately show ?case using Cons.IH by simp
qed

lemma unique_identities_sym:
  "unique_identities us \<longleftrightarrow>
     (\<forall>i j. i < length us \<and> j < length us \<and> i \<noteq> j
        \<longrightarrow> set (identities (us ! i)) \<inter> set (identities (us ! j)) = {})"
proof
  assume u: "unique_identities us"
  show "\<forall>i j. i < length us \<and> j < length us \<and> i \<noteq> j
        \<longrightarrow> set (identities (us ! i)) \<inter> set (identities (us ! j)) = {}"
  proof (intro allI impI)
    fix i j assume a: "i < length us \<and> j < length us \<and> i \<noteq> j"
    show "set (identities (us ! i)) \<inter> set (identities (us ! j)) = {}"
    proof (cases "i < j")
      case True
      then show ?thesis using u a by (simp add: unique_identities_nth)
    next
      case False
      then have "j < i" using a by simp
      then have "set (identities (us ! j)) \<inter> set (identities (us ! i)) = {}"
        using u a by (simp add: unique_identities_nth)
      then show ?thesis by blast
    qed
  qed
next
  assume "\<forall>i j. i < length us \<and> j < length us \<and> i \<noteq> j
        \<longrightarrow> set (identities (us ! i)) \<inter> set (identities (us ! j)) = {}"
  then show "unique_identities us" by (simp add: unique_identities_nth)
qed


lemma replace_first_list_update:
  "find P xs = Some x \<Longrightarrow>
     \<exists>i<length xs. xs ! i = x \<and> replace_first P y xs = xs[i := y]"
proof (induction xs)
  case Nil
  then show ?case by simp
next
  case (Cons a xs)
  show ?case
  proof (cases "P a")
    case True
    with Cons.prems have "a = x" by simp
    with True show ?thesis by (intro exI [of _ 0]) simp
  next
    case False
    with Cons.prems have "find P xs = Some x" by simp
    from Cons.IH [OF this] obtain i where "i < length xs" "xs ! i = x"
      "replace_first P y xs = xs[i := y]" by blast
    with False show ?thesis by (intro exI [of _ "Suc i"]) simp
  qed
qed

lemma identity_imp_match: "(prov, pid) \<in> set (identities u) \<Longrightarrow> oauth_match prov pid u"
  unfolding oauth_match_def identities_def oauthLink_def
  by (cases "providerId u"; cases "oauthLinks u")
     (auto simp: js_or_else_def js_String_def link_identity_iff simp del: set_map split: option.splits)

lemma link_identities_update:
  "set (map (\<lambda>(p, l). (p, link_providerId l)) (AList.clearjunk (AList.update prov l ls)))
     \<subseteq> insert (prov, link_providerId l)
         (set (map (\<lambda>(p, l). (p, link_providerId l)) (AList.clearjunk ls)))"
proof
  fix c assume c: "c \<in> set (map (\<lambda>(p, l). (p, link_providerId l)) (AList.clearjunk (AList.update prov l ls)))"
  obtain q x where qx: "c = (q, x)" by (cases c)
  from c have "\<exists>l'. map_of (AList.update prov l ls) q = Some l' \<and> link_providerId l' = x"
    unfolding qx by (simp only: link_identity_iff)
  then obtain l' where l': "map_of (AList.update prov l ls) q = Some l'" "link_providerId l' = x"
    by blast
  show "c \<in> insert (prov, link_providerId l)
         (set (map (\<lambda>(p, l). (p, link_providerId l)) (AList.clearjunk ls)))"
  proof (cases "q = prov")
    case True
    with l' have "l' = l" by (simp add: update_conv')
    with True l' qx show ?thesis by simp
  next
    case False
    with l' have "map_of ls q = Some l'" by (simp add: update_conv')
    with l' have "(q, x) \<in> set (map (\<lambda>(p, l). (p, link_providerId l)) (AList.clearjunk ls))"
      by (simp only: link_identity_iff) blast
    with qx show ?thesis by simp
  qed
qed

lemma identities_relinked:
  assumes "provider u' = provider u" and "providerId u' = providerId u"
    and "oauthLinks u' = Some (AList.update prov l (case oauthLinks u of None \<Rightarrow> [] | Some ls \<Rightarrow> ls))"
  shows "set (identities u') \<subseteq> insert (prov, link_providerId l) (set (identities u))"
proof (cases "oauthLinks u")
  case None
  then show ?thesis using assms by (auto simp: identities_def split: option.splits)
next
  case (Some ls)
  have "set (identities u') = set (case providerId u of None \<Rightarrow> [] | Some q \<Rightarrow> [(provider u, js_ToString q)])
          \<union> set (map (\<lambda>(p, l). (p, link_providerId l)) (AList.clearjunk (AList.update prov l ls)))"
    using assms Some by (simp add: identities_def)
  moreover have "set (identities u) = set (case providerId u of None \<Rightarrow> [] | Some q \<Rightarrow> [(provider u, js_ToString q)])
          \<union> set (map (\<lambda>(p, l). (p, link_providerId l)) (AList.clearjunk ls))"
    using Some by (simp add: identities_def)
  ultimately show ?thesis using link_identities_update [of prov l ls] by blast
qed

lemma refresh_existing_identities:
  "set (identities (refresh_existing prov pid em dn av now e)) \<subseteq> insert (prov, pid) (set (identities e))"
proof -
  obtain l where l: "oauthLinks (refresh_existing prov pid em dn av now e)
      = Some (AList.update prov l (case oauthLinks e of None \<Rightarrow> [] | Some ls \<Rightarrow> ls))"
    "link_providerId l = pid"
    by (simp add: refresh_existing_def Let_def)
  show ?thesis
    using identities_relinked [OF refresh_existing_fields(3) refresh_existing_fields(4) l(1)]
    by (simp add: l(2))
qed

lemma link_byEmail_identities:
  "set (identities (link_byEmail prov pid em dn av now b)) \<subseteq> insert (prov, pid) (set (identities b))"
proof -
  obtain l where l: "oauthLinks (link_byEmail prov pid em dn av now b)
      = Some (AList.update prov l (case oauthLinks b of None \<Rightarrow> [] | Some ls \<Rightarrow> ls))"
    "link_providerId l = pid"
    by (simp add: link_byEmail_def Let_def)
  show ?thesis
    using identities_relinked [OF link_byEmail_fields(3) link_byEmail_fields(4) l(1)]
    by (simp add: l(2))
qed

lemma new_oauth_user_identities:
  "set (identities (new_oauth_user prov pid em dn av now newId)) = {(prov, pid)}"
  by (simp add: identities_def new_oauth_user_def AList.clearjunk.simps)

lemma unique_identities_update:
  assumes u: "unique_identities us" and i: "i < length us"
    and sub: "set (identities y) \<subseteq> insert c (set (identities (us ! i)))"
    and oth: "\<forall>j<length us. j \<noteq> i \<longrightarrow> c \<notin> set (identities (us ! j))"
  shows "unique_identities (us[i := y])"
  unfolding unique_identities_sym
proof (intro allI impI)
  fix a b assume ab: "a < length (us[i := y]) \<and> b < length (us[i := y]) \<and> a \<noteq> b"
  have d: "set (identities (us ! a)) \<inter> set (identities (us ! b)) = {}"
    using u ab by (simp add: unique_identities_sym)
  show "set (identities (us[i := y] ! a)) \<inter> set (identities (us[i := y] ! b)) = {}"
  proof (cases "a = i")
    case True
    then have b: "b \<noteq> i" "b < length us" using ab by auto
    have "c \<notin> set (identities (us ! b))" using oth b by blast
    then show ?thesis using True b sub d i by (auto simp: nth_list_update)
  next
    case False
    show ?thesis
    proof (cases "b = i")
      case True
      have a: "a < length us" using ab by simp
      have "c \<notin> set (identities (us ! a))" using oth a False by blast
      then show ?thesis using True False sub d i by (auto simp: nth_list_update)
    next
      case bf: False
      then show ?thesis using False d by (simp add: nth_list_update)
    qed
  qed
qed

lemma unique_identities_append:
  "unique_identities us \<Longrightarrow> \<forall>v \<in> set us. set (identities v) \<inter> set (identities y) = {} \<Longrightarrow>
     unique_identities (us @ [y])"
  by (induction us) auto


lemma find_None_nth: "find P xs = None \<Longrightarrow> j < length xs \<Longrightarrow> \<not> P (xs ! j)"
  by (simp add: find_None_iff)

text \<open>
  \<open>upsertOauthUser\<close> keeps the (provider, providerId) identities unique, on each of its
  three paths, when the provider supplied an id.
\<close>

lemma upsert_keeps_unique_identities:
  assumes sane: "builtins_sane bi"
    and u: "unique_identities (USERS st)" and pid: "js_String provId \<noteq> ''undefined''"
  shows "unique_identities (USERS (snd (upsertOauthUser bi prov provId em dn av now newId st)))"
proof (cases "find (oauth_match prov (js_String provId)) (USERS st)")
  case (Some e)
  let ?e' = "refresh_existing prov (js_String provId) em dn av now e"
  from replace_first_list_update [OF Some, of ?e'] obtain i where i: "i < length (USERS st)"
    "USERS st ! i = e"
    "replace_first (oauth_match prov (js_String provId)) ?e' (USERS st) = (USERS st)[i := ?e']"
    by blast
  have "oauth_match prov (js_String provId) e" using Some by (auto simp: find_Some_iff)
  then have own: "(prov, js_String provId) \<in> set (identities (USERS st ! i))"
    using pid i by (simp add: oauth_match_identity)
  have oth: "\<forall>j<length (USERS st). j \<noteq> i
               \<longrightarrow> (prov, js_String provId) \<notin> set (identities (USERS st ! j))"
  proof (intro allI impI)
    fix j assume j: "j < length (USERS st)" "j \<noteq> i"
    have "set (identities (USERS st ! i)) \<inter> set (identities (USERS st ! j)) = {}"
      using u [unfolded unique_identities_sym] i(1) j by blast
    then show "(prov, js_String provId) \<notin> set (identities (USERS st ! j))" using own by blast
  qed
  have sub: "set (identities ?e') \<subseteq> insert (prov, js_String provId) (set (identities (USERS st ! i)))"
    using refresh_existing_identities [of prov "js_String provId" em dn av now e] i by simp
  have "unique_identities ((USERS st)[i := ?e'])"
    by (rule unique_identities_update [OF u i(1) sub oth])
  then show ?thesis by (simp add: upsert_existing [OF Some] i)
next
  case None
  have nobody: "\<forall>v \<in> set (USERS st). (prov, js_String provId) \<notin> set (identities v)"
    using None identity_imp_match by (auto simp: find_None_iff)
  show ?thesis
  proof (cases "normalizeEmail bi em \<noteq> [] \<and> find (same_email bi em) (USERS st) \<noteq> None")
    case True
    then obtain b where b: "find (same_email bi em) (USERS st) = Some b" and n: "normalizeEmail bi em \<noteq> []"
      by auto
    let ?b' = "link_byEmail prov (js_String provId) em dn av now b"
    from replace_first_list_update [OF b, of ?b'] obtain i where i: "i < length (USERS st)"
      "USERS st ! i = b"
      "replace_first (same_email bi em) ?b' (USERS st) = (USERS st)[i := ?b']"
      by blast
    have oth: "\<forall>j<length (USERS st). j \<noteq> i
               \<longrightarrow> (prov, js_String provId) \<notin> set (identities (USERS st ! j))"
      using nobody by simp
    have sub: "set (identities ?b') \<subseteq> insert (prov, js_String provId) (set (identities (USERS st ! i)))"
      using link_byEmail_identities [of prov "js_String provId" em dn av now b] i by simp
    have "unique_identities ((USERS st)[i := ?b'])"
      by (rule unique_identities_update [OF u i(1) sub oth])
    then show ?thesis by (simp add: upsert_link [OF sane None n b] i)
  next
    case False
    then have c: "normalizeEmail bi em = [] \<or> find (same_email bi em) (USERS st) = None" by blast
    have "unique_identities (USERS st @ [new_oauth_user prov (js_String provId) em dn av now newId])"
      using u nobody by (intro unique_identities_append) (simp_all add: new_oauth_user_identities)
    then show ?thesis by (simp add: upsert_create [OF sane None c])
  qed
qed

lemma local_emails_update:
  assumes "i < length us" and "provider y = provider (us ! i)" and "email y = email (us ! i)"
  shows "unique_local_emails bi (us[i := y]) = unique_local_emails bi us"
proof -
  have "map (\<lambda>u. (provider u, email u)) (us[i := y]) = map (\<lambda>u. (provider u, email u)) us"
    using assms by (simp add: map_update list_update_same_conv)
  moreover have "map (\<lambda>u. normalizeEmail bi (email u)) (filter (\<lambda>u. provider u = ''local'') xs)
      = map (\<lambda>p. normalizeEmail bi (snd p)) (filter (\<lambda>p. fst p = ''local'') (map (\<lambda>u. (provider u, email u)) xs))"
    for xs :: "user list"
    by (induction xs) simp_all
  ultimately show ?thesis by (simp add: unique_local_emails_def)
qed

text \<open>
  Steps 2 and 3 of \<open>upsertOauthUser\<close> keep the local e-mails unique (for the OAuth
  providers, whose name is not \<open>local\<close>); only step 1 can break it.
\<close>

lemma upsert_keeps_local_emails_without_direct_match:
  assumes sane: "builtins_sane bi"
    and u: "unique_local_emails bi (USERS st)"
    and nomatch: "find (oauth_match prov (js_String provId)) (USERS st) = None"
    and prov: "prov \<noteq> ''local''"
  shows "unique_local_emails bi (USERS (snd (upsertOauthUser bi prov provId em dn av now newId st)))"
proof (cases "normalizeEmail bi em \<noteq> [] \<and> find (same_email bi em) (USERS st) \<noteq> None")
  case True
  then obtain b where b: "find (same_email bi em) (USERS st) = Some b" and n: "normalizeEmail bi em \<noteq> []"
    by auto
  let ?b' = "link_byEmail prov (js_String provId) em dn av now b"
  from replace_first_list_update [OF b, of ?b'] obtain i where i: "i < length (USERS st)"
    "USERS st ! i = b"
    "replace_first (same_email bi em) ?b' (USERS st) = (USERS st)[i := ?b']"
    by blast
  have "same_email bi em b" using b by (auto simp: find_Some_iff)
  then have tb: "truthy (email b)" using n by (rule same_email_truthy [OF sane])
  have "unique_local_emails bi ((USERS st)[i := ?b']) = unique_local_emails bi (USERS st)"
    using i tb by (intro local_emails_update) (simp_all add: link_byEmail_fields)
  then show ?thesis using u by (simp add: upsert_link [OF sane nomatch n b] i)
next
  case False
  then have c: "normalizeEmail bi em = [] \<or> find (same_email bi em) (USERS st) = None" by blast
  show ?thesis using u prov
    by (simp add: upsert_create [OF sane nomatch c] unique_local_emails_def new_oauth_user_def)
qed

lemma mergeGuestLikes_USERS: "USERS (fst (mergeGuestLikesIntoUser (st, s) u)) = USERS st"
  by (simp add: mergeGuestLikesIntoUser_def getGuestLikes_def setUserLikes_def Let_def
      split: option.splits)

text \<open>\<open>POST /register\<close> keeps the whole invariant.\<close>

lemma register_keeps_invariant:
  assumes sane: "builtins_sane bi"
    and inv: "users_invariant bi (USERS st)"
  shows "users_invariant bi (USERS (fst (snd (post_register bi hash body now newId st s))))"
proof -
  define em where "em = normalizeEmail bi (Some (js_or_else (b_email body) []))"
  define usr where "usr = \<lparr>user_id = newId, provider = ''local'', providerId = None,
                      email = Some em,
                      displayName = js_or (js_or (Some (js_trim bi (js_or_else (b_displayName body) [])))
                                      (Some (takeWhile (\<lambda>c. c \<noteq> CHR ''@'') em))) (Some ''User''),
                      avatar = None, role = ''user'', artistId = None,
                      passwordHash = Some (hash (js_or_else (b_password body) [])),
                      oauthLinks = None, createdAt = Some now\<rparr>"
  have cases: "USERS (fst (snd (post_register bi hash body now newId st s))) = USERS st
      \<or> (em \<noteq> [] \<and> findUserByEmailAnyProvider bi st (Some em) = None
          \<and> USERS (fst (snd (post_register bi hash body now newId st s))) = USERS st @ [usr])"
    unfolding post_register_def Let_def em_def [symmetric] usr_def
    by (simp add: split_def mergeGuestLikes_USERS)
  show ?thesis
  proof (rule disjE [OF cases])
    assume "USERS (fst (snd (post_register bi hash body now newId st s))) = USERS st"
    then show ?thesis using inv by simp
  next
    assume a: "em \<noteq> [] \<and> findUserByEmailAnyProvider bi st (Some em) = None
          \<and> USERS (fst (snd (post_register bi hash body now newId st s))) = USERS st @ [usr]"
    have idem: "normalizeEmail bi (Some em) = em" unfolding em_def by (rule normalizeEmail_idem [OF sane])
    have "find (\<lambda>u. normalizeEmail bi (email u) = em) (USERS st) = None"
      using a by (auto simp: findUserByEmailAnyProvider_def Let_def idem)
    then have fresh: "em \<notin> set (map (\<lambda>u. normalizeEmail bi (email u)) (filter (\<lambda>u. provider u = ''local'') (USERS st)))"
      by (auto simp: find_None_iff)
    have 1: "unique_local_emails bi (USERS st @ [usr])"
      using inv fresh by (simp add: users_invariant_def unique_local_emails_def usr_def idem)
    have "identities usr = []" by (simp add: identities_def usr_def)
    then have 2: "unique_identities (USERS st @ [usr])"
      using inv by (intro unique_identities_append) (simp_all add: users_invariant_def)
    show ?thesis using a 1 2 by (simp add: users_invariant_def)
  qed
qed

text \<open>
  Claim C2 at a failing input. Ann registers locally and links her Google account by
  e-mail; Bob registers locally. Up to here the invariant holds. Then Ann's Google
  identity returns with Bob's address: step 1 of \<open>upsertOauthUser\<close> writes it over her
  e-mail without looking for another account that has it, and two local accounts share
  one normalised e-mail.
\<close>

theorem oauth_refresh_duplicates_local_email:
  "users_invariant ascii_builtins (USERS dup_state1)
   \<and> users_invariant ascii_builtins (USERS dup_state2)
   \<and> users_invariant ascii_builtins (USERS dup_state3)
   \<and> \<not> users_invariant ascii_builtins (USERS dup_state4)
   \<and> \<not> unique_local_emails ascii_builtins (USERS dup_state4)
   \<and> map (\<lambda>u. (user_id u, provider u, normalizeEmail ascii_builtins (email u))) (USERS dup_state3)
       = [(''u_ann'', ''local'', ''ann@x.com''), (''u_bob'', ''local'', ''bob@x.com'')]
   \<and> map (\<lambda>u. (user_id u, provider u, normalizeEmail ascii_builtins (email u))) (USERS dup_state4)
       = [(''u_ann'', ''local'', ''bob@x.com''), (''u_bob'', ''local'', ''bob@x.com'')]"
  by code_simp

end
